theory Spec2Isabelle
  imports Main
begin

section \<open>Values of the scripting language\<close>

text \<open>
  The editor (\<^verbatim>\<open>players.js\<close>) and the read-only viewer (\<^verbatim>\<open>players-view.js\<close>) work on
  untyped values: whatever \<^verbatim>\<open>JSON.parse\<close> returns from local storage or from an imported
  file, and what the form fields hold.  The embedding keeps them untyped.

  Scope of the value model:
  \<^item> a number is a mathematical integer or \<^verbatim>\<open>NaN\<close> (the data model types rank and points as
    integers); fractions, infinities and the negative zero are not represented, and an
    integer stands for a number that the language holds exactly and writes in plain digits
    (a magnitude below \<^verbatim>\<open>1e21\<close>);
  \<^item> \<^verbatim>\<open>Number\<close> on a string is modelled on the strings that are empty, that are a signed run
    of decimal digits, or that are no numeral at all; a numeral with a fraction, an
    exponent or a radix prefix, and \<^verbatim>\<open>Infinity\<close>, are outside the model;
  \<^item> a string is a list of 8-bit code units; the white space removed by \<^verbatim>\<open>trim\<close> is
    TAB, LF, VT, FF, CR, SPACE and NBSP, and \<^verbatim>\<open>toLowerCase\<close> acts on the letters A to Z;
  \<^item> an object is the list of its own properties in insertion order (the language puts
    index-like keys first, which no read observes); a read takes
    the first entry of a key, and in an object of the language every key occurs once;
  \<^item> \<open>Builtin\<close> stands for what a read of a name of \<^verbatim>\<open>Object.prototype\<close> yields
    (\<^verbatim>\<open>constructor\<close>, \<^verbatim>\<open>toString\<close>, ...): a function or the prototype itself.  The code
    only ever converts such a value to a number;
  \<^item> a write to the storage succeeds, and the functions of the page (rendering, alerts,
    notifications) do not raise.
\<close>

datatype jsnum = NaN | Fin int

datatype jsval =
    Undefined
  | Null
  | Bool bool
  | Num jsnum
  | Str string
  | Arr "jsval list"
  | Obj "(string \<times> jsval) list"
  | Builtin

type_synonym obj = "(string \<times> jsval) list"

datatype error = TypeError | SyntaxError | Error string

subsection \<open>Truthiness and the short-circuit operators\<close>

fun truthy :: "jsval \<Rightarrow> bool" where
  "truthy Undefined = False"
| "truthy Null = False"
| "truthy (Bool b) = b"
| "truthy (Num NaN) = False"
| "truthy (Num (Fin n)) = (n \<noteq> 0)"
| "truthy (Str s) = (s \<noteq> [])"
| "truthy (Arr vs) = True"
| "truthy (Obj kvs) = True"
| "truthy Builtin = True"

text \<open>\<^verbatim>\<open>a || b\<close> and \<^verbatim>\<open>a ?? b\<close> on values already computed (no operand of the source has
  an effect).\<close>

definition orJS :: "jsval \<Rightarrow> jsval \<Rightarrow> jsval" where
  "orJS a b = (if truthy a then a else b)"

definition nullish :: "jsval \<Rightarrow> bool" where
  "nullish v = (v = Undefined \<or> v = Null)"

definition coalesce :: "jsval \<Rightarrow> jsval \<Rightarrow> jsval" where
  "coalesce a b = (if nullish a then b else a)"

subsection \<open>Strings\<close>

definition isWhiteSpace :: "char \<Rightarrow> bool" where
  "isWhiteSpace c = (c \<in> set [CHR 0x09, CHR 0x0A, CHR 0x0B, CHR 0x0C, CHR 0x0D, CHR 0x20, CHR 0xA0])"

definition trim :: "string \<Rightarrow> string" where
  "trim s = rev (dropWhile isWhiteSpace (rev (dropWhile isWhiteSpace s)))"

definition digitChar :: "nat \<Rightarrow> char" where
  "digitChar d = char_of (48 + d)"

function showNat :: "nat \<Rightarrow> string" where
  "showNat n = (if n < 10 then [digitChar n] else showNat (n div 10) @ [digitChar (n mod 10)])"
  by pat_completeness auto
termination
  by (relation "measure id") auto

declare showNat.simps [simp del]

definition showInt :: "int \<Rightarrow> string" where
  "showInt i = (if i < 0 then CHR ''-'' # showNat (nat (- i)) else showNat (nat i))"

text \<open>\<^verbatim>\<open>String(n)\<close> on a number: the decimal digits of an integer, with its sign.  (The
  language writes a magnitude of \<^verbatim>\<open>1e21\<close> or more with an exponent; such numbers are
  outside the model.)\<close>

definition numToString :: "jsnum \<Rightarrow> string" where
  "numToString n = (case n of NaN \<Rightarrow> ''NaN'' | Fin i \<Rightarrow> showInt i)"

definition isDigit :: "char \<Rightarrow> bool" where
  "isDigit c = ((48::nat) \<le> of_char c \<and> of_char c \<le> (57::nat))"

definition digitVal :: "char \<Rightarrow> nat" where
  "digitVal c = of_char c - 48"

fun digitsAcc :: "nat \<Rightarrow> string \<Rightarrow> nat option" where
  "digitsAcc acc [] = Some acc"
| "digitsAcc acc (c # cs) = (if isDigit c then digitsAcc (10 * acc + digitVal c) cs else None)"

definition digitsValue :: "string \<Rightarrow> nat option" where
  "digitsValue s = (if s = [] then None else digitsAcc 0 s)"

text \<open>\<^verbatim>\<open>Number(s)\<close> on a string: white space is trimmed, the empty string is 0, a signed
  run of decimal digits is its value, anything else is \<^verbatim>\<open>NaN\<close>.  This is the conversion of
  the language on every string but the numerals written with a fraction, an exponent or a
  radix prefix and \<^verbatim>\<open>Infinity\<close>: these are outside the model, and \<open>strToNum\<close> gives
  \<^verbatim>\<open>NaN\<close> for them where the language gives their value.\<close>

definition strToNum :: "string \<Rightarrow> jsnum" where
  "strToNum s =
     (case trim s of
        [] \<Rightarrow> Fin 0
      | c # r \<Rightarrow>
          if c = CHR ''-'' then (case digitsValue r of None \<Rightarrow> NaN | Some n \<Rightarrow> Fin (- int n))
          else if c = CHR ''+'' then (case digitsValue r of None \<Rightarrow> NaN | Some n \<Rightarrow> Fin (int n))
          else (case digitsValue (c # r) of None \<Rightarrow> NaN | Some n \<Rightarrow> Fin (int n)))"

subsection \<open>Conversions\<close>

definition own :: "obj \<Rightarrow> string \<Rightarrow> bool" where
  "own kvs k = (map_of kvs k \<noteq> None)"

text \<open>
  \<^verbatim>\<open>String(v)\<close>, \<^verbatim>\<open>v.toString()\<close> and the conversion of a property key.  An array joins
  its elements with commas, \<^verbatim>\<open>null\<close> and \<^verbatim>\<open>undefined\<close> elements giving the empty string.
  A parsed object inherits \<^verbatim>\<open>Object.prototype.toString\<close> unless it has an own property
  \<^verbatim>\<open>toString\<close>: that one is data, not a function, and calling or converting raises
  \<^verbatim>\<open>TypeError\<close>.
\<close>

fun toStr :: "jsval \<Rightarrow> error + string"
  and joinElems :: "jsval list \<Rightarrow> error + string" where
  "toStr Undefined = Inr ''undefined''"
| "toStr Null = Inr ''null''"
| "toStr (Bool b) = Inr (if b then ''true'' else ''false'')"
| "toStr (Num n) = Inr (numToString n)"
| "toStr (Str s) = Inr s"
| "toStr (Arr vs) = joinElems vs"
| "toStr (Obj kvs) = (if own kvs ''toString'' then Inl TypeError else Inr ''[object Object]'')"
| "toStr Builtin = Inr ''function () { [native code] }''"
| "joinElems [] = Inr []"
| "joinElems (v # vs) =
     (case (if v = Undefined \<or> v = Null then Inr [] else toStr v) of
        Inl e \<Rightarrow> Inl e
      | Inr s \<Rightarrow>
          if vs = [] then Inr s
          else (case joinElems vs of Inl e \<Rightarrow> Inl e | Inr r \<Rightarrow> Inr (s @ '','' @ r)))"

text \<open>\<^verbatim>\<open>Number(v)\<close>, and the operand conversion of the binary minus.\<close>

fun toNum :: "jsval \<Rightarrow> error + jsnum" where
  "toNum Undefined = Inr NaN"
| "toNum Null = Inr (Fin 0)"
| "toNum (Bool b) = Inr (Fin (if b then 1 else 0))"
| "toNum (Num n) = Inr n"
| "toNum (Str s) = Inr (strToNum s)"
| "toNum (Arr vs) = (case joinElems vs of Inl e \<Rightarrow> Inl e | Inr s \<Rightarrow> Inr (strToNum s))"
| "toNum (Obj kvs) = (if own kvs ''toString'' then Inl TypeError else Inr NaN)"
| "toNum Builtin = Inr NaN"

subsection \<open>Property reads\<close>

definition objectPrototypeNames :: "string list" where
  "objectPrototypeNames =
     [''constructor'', ''hasOwnProperty'', ''isPrototypeOf'', ''propertyIsEnumerable'',
      ''toLocaleString'', ''toString'', ''valueOf'', ''__proto__'',
      ''__defineGetter__'', ''__defineSetter__'', ''__lookupGetter__'', ''__lookupSetter__'']"

text \<open>\<^verbatim>\<open>o[k]\<close> on an object: the own property, else what \<^verbatim>\<open>Object.prototype\<close> has under
  that name, else \<^verbatim>\<open>undefined\<close>.\<close>

definition getProp :: "obj \<Rightarrow> string \<Rightarrow> jsval" where
  "getProp kvs k =
     (case map_of kvs k of
        Some v \<Rightarrow> v
      | None \<Rightarrow> if k \<in> set objectPrototypeNames then Builtin else Undefined)"

text \<open>
  \<^verbatim>\<open>item.k\<close> for the field names the code reads from a player (\<^verbatim>\<open>rank\<close>, \<^verbatim>\<open>name\<close>,
  \<^verbatim>\<open>player\<close>, \<^verbatim>\<open>username\<close>, \<^verbatim>\<open>tier\<close>, \<^verbatim>\<open>Tier\<close>, \<^verbatim>\<open>TIER\<close>, \<^verbatim>\<open>points\<close>): none of them is
  defined on a string, a number, a boolean or an array, so the read is \<^verbatim>\<open>undefined\<close> there;
  on \<^verbatim>\<open>null\<close> and \<^verbatim>\<open>undefined\<close> the read raises.
\<close>

fun field :: "jsval \<Rightarrow> string \<Rightarrow> error + jsval" where
  "field Undefined k = Inl TypeError"
| "field Null k = Inl TypeError"
| "field (Obj kvs) k = Inr (getProp kvs k)"
| "field v k = Inr Undefined"


subsection \<open>Object construction\<close>

text \<open>\<^verbatim>\<open>o[k] = v\<close> on an object being built: an existing key keeps its place.\<close>

fun setProp :: "obj \<Rightarrow> string \<Rightarrow> jsval \<Rightarrow> obj" where
  "setProp [] k v = [(k, v)]"
| "setProp ((k', v') # kvs) k v = (if k' = k then (k, v) # kvs else (k', v') # setProp kvs k v)"

fun indexed :: "nat \<Rightarrow> jsval list \<Rightarrow> obj" where
  "indexed i [] = []"
| "indexed i (v # vs) = (showNat i, v) # indexed (Suc i) vs"

text \<open>The own enumerable properties that a spread \<^verbatim>\<open>...v\<close> copies: those of an object, the
  indices of an array or of a string, nothing for the other values.\<close>

fun ownProps :: "jsval \<Rightarrow> obj" where
  "ownProps (Obj kvs) = kvs"
| "ownProps (Arr vs) = indexed 0 vs"
| "ownProps (Str s) = indexed 0 (map (\<lambda>c. Str [c]) s)"
| "ownProps v = []"

text \<open>\<^verbatim>\<open>{ ...a, ...v }\<close> and \<^verbatim>\<open>{ ...v, k: x }\<close>.\<close>

definition spread :: "obj \<Rightarrow> jsval \<Rightarrow> obj" where
  "spread a v = foldl (\<lambda>acc kv. setProp acc (fst kv) (snd kv)) a (ownProps v)"

section \<open>Persistent storage and JSON text\<close>

text \<open>
  \<^verbatim>\<open>localStorage\<close> maps a key to a text.  \<^verbatim>\<open>JSON.parse\<close> and \<^verbatim>\<open>JSON.stringify\<close> belong to
  the runtime, so a text is modelled by what \<^verbatim>\<open>JSON.parse\<close> makes of it: the empty text, a
  non-empty text that does not parse, or a text that parses to a value.
\<close>

datatype rawtext = Empty | Garbage | Json jsval

type_synonym storage = "string \<rightharpoonup> rawtext"

definition JSON_parse :: "rawtext \<Rightarrow> error + jsval" where
  "JSON_parse t = (case t of Empty \<Rightarrow> Inl SyntaxError | Garbage \<Rightarrow> Inl SyntaxError | Json v \<Rightarrow> Inr v)"

text \<open>What \<^verbatim>\<open>JSON.stringify\<close> keeps of a value: \<^verbatim>\<open>NaN\<close> is written \<^verbatim>\<open>null\<close>, a property
  holding \<^verbatim>\<open>undefined\<close> or a function is left out, such an array element is written
  \<^verbatim>\<open>null\<close>.\<close>

fun jsonValue :: "jsval \<Rightarrow> jsval" where
  "jsonValue (Num NaN) = Null"
| "jsonValue (Arr vs) =
     Arr (map (\<lambda>v. if v = Undefined \<or> v = Builtin then Null else jsonValue v) vs)"
| "jsonValue (Obj kvs) =
     Obj (map (\<lambda>kv. (fst kv, jsonValue (snd kv)))
            (filter (\<lambda>kv. snd kv \<noteq> Undefined \<and> snd kv \<noteq> Builtin) kvs))"
| "jsonValue v = v"

text \<open>An array in memory may have holes (\<open>None\<close>): an index written past the end leaves
  them behind.  \<^verbatim>\<open>JSON.stringify\<close> writes a hole as \<^verbatim>\<open>null\<close>.\<close>

type_synonym jsarray = "jsval option list"

definition slotJson :: "jsval option \<Rightarrow> jsval" where
  "slotJson s =
     (case s of
        None \<Rightarrow> Null
      | Some v \<Rightarrow> if v = Undefined \<or> v = Builtin then Null else jsonValue v)"

definition stringifyArray :: "jsarray \<Rightarrow> rawtext" where
  "stringifyArray xs = Json (Arr (map slotJson xs))"

definition stringifyObject :: "obj \<Rightarrow> rawtext" where
  "stringifyObject kvs = Json (jsonValue (Obj kvs))"

section \<open>The record store of the editor\<close>

definition STORAGE_KEY :: string where
  "STORAGE_KEY = ''mctiers_players_v1''"

definition MAPPING_KEY :: string where
  "MAPPING_KEY = ''mctiers_tier_mapping_v1''"

definition TIER_ORDER :: "string list" where
  "TIER_ORDER = [''LT5'', ''HT5'', ''LT4'', ''HT4'', ''LT3'', ''HT3'', ''LT2'', ''HT2'', ''LT1'', ''HT1'']"

definition mappingDefault :: obj where
  "mappingDefault =
     [(''LT5'', Num (Fin 10)), (''HT5'', Num (Fin 20)), (''LT4'', Num (Fin 30)),
      (''HT4'', Num (Fin 40)), (''LT3'', Num (Fin 50)), (''HT3'', Num (Fin 60)),
      (''LT2'', Num (Fin 70)), (''HT2'', Num (Fin 80)), (''LT1'', Num (Fin 90)),
      (''HT1'', Num (Fin 100))]"

definition mkPlayer :: "jsval \<Rightarrow> jsval \<Rightarrow> jsval \<Rightarrow> jsval \<Rightarrow> jsval" where
  "mkPlayer r n t p = Obj [(''rank'', r), (''name'', n), (''tier'', t), (''points'', p)]"

definition initialData :: "jsval list" where
  "initialData =
     [mkPlayer (Num (Fin 1)) (Str ''XxPvPProxX'') (Str ''HT1'') (getProp mappingDefault ''HT1''),
      mkPlayer (Num (Fin 2)) (Str ''SharpBlade'') (Str ''LT2'') (getProp mappingDefault ''LT2''),
      mkPlayer (Num (Fin 3)) (Str ''NoobSlayer'') (Str ''LT5'') (getProp mappingDefault ''LT5'')]"

text \<open>The body of the \<^verbatim>\<open>try\<close> of \<^verbatim>\<open>loadPlayers\<close>: the list read, and the storage after it.\<close>

definition loadPlayers_try :: "storage \<Rightarrow> error + (jsarray \<times> storage)" where
  "loadPlayers_try st =
     (case st STORAGE_KEY of
        None \<Rightarrow> Inr (map Some initialData, st(STORAGE_KEY \<mapsto> stringifyArray (map Some initialData)))
      | Some Empty \<Rightarrow> Inr (map Some initialData, st(STORAGE_KEY \<mapsto> stringifyArray (map Some initialData)))
      | Some raw \<Rightarrow>
          (case JSON_parse raw of
             Inl e \<Rightarrow> Inl e
           | Inr (Arr vs) \<Rightarrow> Inr (map Some vs, st)
           | Inr v \<Rightarrow> Inl (Error ''Invalid data'')))"

definition loadPlayers :: "storage \<Rightarrow> jsarray \<times> storage" where
  "loadPlayers st =
     (case loadPlayers_try st of
        Inr r \<Rightarrow> r
      | Inl e \<Rightarrow>
          (map Some initialData,
           (st(STORAGE_KEY := None))(STORAGE_KEY \<mapsto> stringifyArray (map Some initialData))))"

definition loadMapping_try :: "storage \<Rightarrow> error + (obj \<times> storage)" where
  "loadMapping_try st =
     (case st MAPPING_KEY of
        None \<Rightarrow> Inr (mappingDefault, st(MAPPING_KEY \<mapsto> stringifyObject mappingDefault))
      | Some Empty \<Rightarrow> Inr (mappingDefault, st(MAPPING_KEY \<mapsto> stringifyObject mappingDefault))
      | Some raw \<Rightarrow>
          (case JSON_parse raw of
             Inl e \<Rightarrow> Inl e
           | Inr parsed \<Rightarrow> Inr (spread mappingDefault parsed, st)))"

definition loadMapping :: "storage \<Rightarrow> obj \<times> storage" where
  "loadMapping st =
     (case loadMapping_try st of
        Inr r \<Rightarrow> r
      | Inl e \<Rightarrow>
          (mappingDefault,
           (st(MAPPING_KEY := None))(MAPPING_KEY \<mapsto> stringifyObject mappingDefault)))"

section \<open>The loaders of the read-only viewer\<close>

definition view_loadPlayers_try :: "storage \<Rightarrow> error + jsarray" where
  "view_loadPlayers_try st =
     (case st STORAGE_KEY of
        None \<Rightarrow> Inr []
      | Some Empty \<Rightarrow> Inr []
      | Some raw \<Rightarrow>
          (case JSON_parse raw of
             Inl e \<Rightarrow> Inl e
           | Inr (Arr vs) \<Rightarrow> Inr (map Some vs)
           | Inr v \<Rightarrow> Inr []))"

definition view_loadPlayers :: "storage \<Rightarrow> jsarray \<times> storage" where
  "view_loadPlayers st = (case view_loadPlayers_try st of Inr r \<Rightarrow> (r, st) | Inl e \<Rightarrow> ([], st))"

text \<open>The viewer keeps what it parsed when that is truthy and of type \<^verbatim>\<open>object\<close> (an
  object or an array), as it is: an array stays an array.\<close>

definition view_loadMapping_try :: "storage \<Rightarrow> error + jsval" where
  "view_loadMapping_try st =
     (case st MAPPING_KEY of
        None \<Rightarrow> Inr (Obj [])
      | Some Empty \<Rightarrow> Inr (Obj [])
      | Some raw \<Rightarrow>
          (case JSON_parse raw of
             Inl e \<Rightarrow> Inl e
           | Inr (Obj kvs) \<Rightarrow> Inr (Obj kvs)
           | Inr (Arr vs) \<Rightarrow> Inr (Arr vs)
           | Inr v \<Rightarrow> Inr (Obj [])))"

definition view_loadMapping :: "storage \<Rightarrow> jsval \<times> storage" where
  "view_loadMapping st =
     (case view_loadMapping_try st of Inr r \<Rightarrow> (r, st) | Inl e \<Rightarrow> (Obj [], st))"


section \<open>The normalizer\<close>

text \<open>Sequencing of steps that may raise: the first error ends the computation.\<close>

definition bindE :: "error + 'a \<Rightarrow> ('a \<Rightarrow> error + 'b) \<Rightarrow> error + 'b" where
  "bindE m f = (case m of Inl e \<Rightarrow> Inl e | Inr x \<Rightarrow> f x)"

text \<open>
  \<^verbatim>\<open>normalizePlayer(item)\<close> with the tier mapping of the editor as a parameter.  The reads of
  \<^verbatim>\<open>item\<close> raise together (when \<^verbatim>\<open>item\<close> is \<^verbatim>\<open>null\<close> or \<^verbatim>\<open>undefined\<close>) or not at all;
  \<open>readOf\<close> is the read on an item that is neither.  One definition for each constant of
  the source, then the record literal, its conversions in the order of the source.
\<close>

definition readOf :: "jsval \<Rightarrow> string \<Rightarrow> jsval" where
  "readOf item k = (case field item k of Inr v \<Rightarrow> v | Inl e \<Rightarrow> Undefined)"

definition tierValOf :: "jsval \<Rightarrow> error + string" where
  "tierValOf item =
     bindE (toStr (orJS (readOf item ''tier'') (orJS (readOf item ''Tier'')
                     (orJS (readOf item ''TIER'') (Str [])))))
       (\<lambda>ts. Inr (trim ts))"

definition pointsProvidedOf :: "jsval \<Rightarrow> error + jsnum option" where
  "pointsProvidedOf item =
     (if readOf item ''points'' \<noteq> Undefined \<and> readOf item ''points'' \<noteq> Null
         \<and> readOf item ''points'' \<noteq> Str []
      then bindE (toNum (readOf item ''points'')) (\<lambda>n. Inr (Some n))
      else Inr None)"

definition pointsOf :: "obj \<Rightarrow> string \<Rightarrow> jsnum option \<Rightarrow> jsval" where
  "pointsOf tierMapping tierVal pointsProvided =
     (case pointsProvided of
        None \<Rightarrow> coalesce (getProp tierMapping tierVal) (Num (Fin 0))
      | Some NaN \<Rightarrow> coalesce (getProp tierMapping tierVal) (Num (Fin 0))
      | Some (Fin n) \<Rightarrow> Num (Fin n))"

definition nameOf :: "jsval \<Rightarrow> error + string" where
  "nameOf item =
     toStr (orJS (readOf item ''name'') (orJS (readOf item ''player'')
              (orJS (readOf item ''username'') (Str ''Unknown''))))"

definition normalizePlayer :: "obj \<Rightarrow> jsval \<Rightarrow> error + jsval" where
  "normalizePlayer tierMapping item =
     (if nullish item then Inl TypeError
      else
        bindE (tierValOf item) (\<lambda>tierVal.
        bindE (pointsProvidedOf item) (\<lambda>pointsProvided.
        bindE (toNum (readOf item ''rank'')) (\<lambda>r.
        bindE (nameOf item) (\<lambda>nm.
        bindE (toNum (pointsOf tierMapping tierVal pointsProvided)) (\<lambda>p.
          Inr (mkPlayer (orJS (Num r) (Num (Fin 0))) (Str nm)
                 (orJS (Str tierVal) (Str []))
                 (orJS (Num p) (Num (Fin 0))))))))))"

section \<open>The editor\<close>

text \<open>
  The module-level variables of the editor, the storage, and the alerts shown so far.  The
  notifications sent by a save (broadcast message, window event) change none of them within
  the handler that saves; they are not part of the state.
\<close>

record editor =
  players :: jsarray
  tierMapping :: obj
  editingId :: "nat option"
  store :: storage
  alerts :: "string list"

definition savePlayers :: "editor \<Rightarrow> editor" where
  "savePlayers ed = ed\<lparr>store := (store ed)(STORAGE_KEY \<mapsto> stringifyArray (players ed))\<rparr>"

definition alert :: "string \<Rightarrow> editor \<Rightarrow> editor" where
  "alert msg ed = ed\<lparr>alerts := alerts ed @ [msg]\<rparr>"

text \<open>\<^verbatim>\<open>xs.map(f)\<close> on an array with holes: a hole is skipped and stays a hole; the first
  call that raises ends the loop.\<close>

fun mapE :: "('a \<Rightarrow> error + 'b) \<Rightarrow> 'a list \<Rightarrow> error + 'b list" where
  "mapE f [] = Inr []"
| "mapE f (x # xs) = bindE (f x) (\<lambda>y. bindE (mapE f xs) (\<lambda>ys. Inr (y # ys)))"

definition mapSlots :: "(jsval \<Rightarrow> error + jsval) \<Rightarrow> jsarray \<Rightarrow> error + jsarray" where
  "mapSlots f xs =
     mapE (\<lambda>s. case s of None \<Rightarrow> Inr None | Some v \<Rightarrow> bindE (f v) (\<lambda>y. Inr (Some y))) xs"

subsection \<open>CSV\<close>

text \<open>The loop of \<^verbatim>\<open>splitCSVLine\<close>: the characters left, \<^verbatim>\<open>cur\<close>, \<^verbatim>\<open>inQuotes\<close> and
  \<^verbatim>\<open>res\<close>.  A quote inside quotes that is followed by a quote gives one quote and skips
  both.\<close>

fun splitLoop :: "string \<Rightarrow> string \<Rightarrow> bool \<Rightarrow> string list \<Rightarrow> string list" where
  "splitLoop [] cur inQuotes res = res @ [cur]"
| "splitLoop (ch # rest) cur inQuotes res =
     (if ch = CHR 0x22 then
        (case rest of
           ch2 # rest2 \<Rightarrow>
             if inQuotes \<and> ch2 = CHR 0x22 then splitLoop rest2 (cur @ [CHR 0x22]) inQuotes res
             else splitLoop rest cur (\<not> inQuotes) res
         | [] \<Rightarrow> splitLoop rest cur (\<not> inQuotes) res)
      else if ch = CHR '','' \<and> \<not> inQuotes then splitLoop rest [] inQuotes (res @ [cur])
      else splitLoop rest (cur @ [ch]) inQuotes res)"

definition splitCSVLine :: "string \<Rightarrow> string list" where
  "splitCSVLine line = splitLoop line [] False []"

text \<open>\<^verbatim>\<open>text.split(/\r?\n/)\<close>: a line ends at a line feed, or at a carriage return that a
  line feed follows.\<close>

fun splitLines :: "string \<Rightarrow> string \<Rightarrow> string list" where
  "splitLines cur [] = [cur]"
| "splitLines cur (c # cs) =
     (if c = CHR 0x0A then cur # splitLines [] cs
      else if c = CHR 0x0D \<and> cs \<noteq> [] \<and> hd cs = CHR 0x0A then cur # splitLines [] (tl cs)
      else splitLines (cur @ [c]) cs)"

definition toLowerChar :: "char \<Rightarrow> char" where
  "toLowerChar c =
     (if (65::nat) \<le> of_char c \<and> of_char c \<le> (90::nat) then char_of (of_char c + (32::nat)) else c)"

definition toLowerCase :: "string \<Rightarrow> string" where
  "toLowerCase s = map toLowerChar s"

text \<open>One row of \<^verbatim>\<open>parseCSV\<close>: \<^verbatim>\<open>obj[h] = vals[i] ?? ""\<close> for each header.  The header
  \<^verbatim>\<open>__proto__\<close> names the accessor of \<^verbatim>\<open>Object.prototype\<close>, whose setter ignores a
  string: that assignment creates no property.\<close>

fun rowObject :: "string list \<Rightarrow> string list \<Rightarrow> obj \<Rightarrow> obj" where
  "rowObject [] vals acc = acc"
| "rowObject (h # hs) vals acc =
     rowObject hs (tl vals)
       (if h = ''__proto__'' then acc
        else setProp acc h (Str (case vals of [] \<Rightarrow> [] | v # vs \<Rightarrow> v)))"

definition parseCSV :: "string \<Rightarrow> obj list" where
  "parseCSV txt =
     (case filter (\<lambda>l. length (trim l) \<noteq> 0) (splitLines [] txt) of
        [] \<Rightarrow> []
      | l # ls \<Rightarrow>
          let headers = map (\<lambda>h. toLowerCase (trim h)) (splitCSVLine l)
          in map (\<lambda>line. rowObject headers (splitCSVLine line) []) ls)"

text \<open>The record literal that the CSV branch of the import passes to the normalizer.\<close>

definition csvRecord :: "obj \<Rightarrow> jsval" where
  "csvRecord r =
     mkPlayer
       (coalesce (getProp r ''rank'') (coalesce (getProp r ''Rank'') (getProp r ''RANK'')))
       (coalesce (getProp r ''name'') (coalesce (getProp r ''Name'')
          (coalesce (getProp r ''NAME'') (getProp r ''player''))))
       (coalesce (getProp r ''tier'') (coalesce (getProp r ''Tier'') (getProp r ''TIER'')))
       (coalesce (getProp r ''points'') (coalesce (getProp r ''Points'')
          (coalesce (getProp r ''POINTS'') (getProp r ''score''))))"

subsection \<open>Import and export\<close>

definition endsWith :: "string \<Rightarrow> string \<Rightarrow> bool" where
  "endsWith s suffix = (length suffix \<le> length s \<and> drop (length s - length suffix) s = suffix)"

text \<open>
  The body of the \<^verbatim>\<open>try\<close> in the \<^verbatim>\<open>onload\<close> handler of \<^verbatim>\<open>importDataFromFile\<close>.  The file
  is given by its name, its text, and what \<^verbatim>\<open>JSON.parse\<close> makes of that text.  The list is
  assigned only once every element is normalized, and nothing after the assignment raises
  (the records rendered are normalized ones), so an error leaves the state as it was.
\<close>

definition import_try :: "string \<Rightarrow> string \<Rightarrow> rawtext \<Rightarrow> editor \<Rightarrow> error + editor" where
  "import_try fileName txt json ed =
     bindE
       (if endsWith (toLowerCase fileName) ''.json'' then
          bindE (JSON_parse json) (\<lambda>data.
            case data of
              Arr vs \<Rightarrow> mapE (normalizePlayer (tierMapping ed)) vs
            | _ \<Rightarrow> Inl (Error ''JSON must be an array''))
        else mapE (\<lambda>r. normalizePlayer (tierMapping ed) (csvRecord r)) (parseCSV txt))
       (\<lambda>normalized.
          Inr (alert ''Import successful. The list was replaced with the imported data.''
                 (savePlayers (ed\<lparr>players := map Some normalized\<rparr>))))"

definition importDataFromFile :: "string \<Rightarrow> string \<Rightarrow> rawtext \<Rightarrow> editor \<Rightarrow> editor" where
  "importDataFromFile fileName txt json ed =
     (case import_try fileName txt json ed of
        Inr ed' \<Rightarrow> ed'
      | Inl e \<Rightarrow> alert ''Failed to import file. See console for details.'' ed)"

text \<open>\<^verbatim>\<open>downloadJSON()\<close>: the name of the file offered and the reading of its text, which is
  \<^verbatim>\<open>JSON.stringify(players, null, 2)\<close>.\<close>

definition downloadJSON :: "editor \<Rightarrow> string \<times> rawtext" where
  "downloadJSON ed = (''players.json'', stringifyArray (players ed))"

subsection \<open>Mapping actions\<close>

text \<open>\<^verbatim>\<open>{ ...p, points: Number(tierMapping[p.tier] ?? 0) }\<close>; the key of the read is
  \<^verbatim>\<open>p.tier\<close> converted to a string.\<close>

definition withMappedPoints :: "obj \<Rightarrow> jsval \<Rightarrow> error + jsval" where
  "withMappedPoints tm p =
     bindE (field p ''tier'') (\<lambda>t.
     bindE (toStr t) (\<lambda>k.
     bindE (toNum (coalesce (getProp tm k) (Num (Fin 0)))) (\<lambda>n.
       Inr (Obj (setProp (spread [] p) ''points'' (Num n))))))"

text \<open>The answer to \<^verbatim>\<open>confirm\<close> is a parameter.  An error is not caught by these
  handlers: \<open>Inl\<close> is the handler ending in an uncaught exception.\<close>

definition applyMappingToAllPlayers :: "bool \<Rightarrow> editor \<Rightarrow> error + editor" where
  "applyMappingToAllPlayers confirmed ed =
     (if \<not> confirmed then Inr ed
      else
        bindE (mapSlots (withMappedPoints (tierMapping ed)) (players ed)) (\<lambda>ps.
          Inr (alert ''Applied mapping to all players.'' (savePlayers (ed\<lparr>players := ps\<rparr>)))))"

definition applyMappingToEmptyPlayers :: "editor \<Rightarrow> error + editor" where
  "applyMappingToEmptyPlayers ed =
     bindE
       (mapSlots
          (\<lambda>p. bindE (field p ''points'') (\<lambda>pts.
                  if \<not> truthy pts then withMappedPoints (tierMapping ed) p else Inr p))
          (players ed))
       (\<lambda>ps. Inr (alert ''Applied mapping to players with empty/zero points.''
                     (savePlayers (ed\<lparr>players := ps\<rparr>))))"

subsection \<open>Row actions\<close>
















subsection \<open>The form\<close>











section \<open>Notions used in the statements\<close>

definition numOr0 :: "jsnum \<Rightarrow> int" where
  "numOr0 r = (case r of NaN \<Rightarrow> 0 | Fin n \<Rightarrow> n)"

text \<open>The invariant of a player record in the data model: the four fields are present,
  rank and points are numbers, name and tier are strings.\<close>

fun isFinNum :: "jsval \<Rightarrow> bool" where
  "isFinNum (Num (Fin n)) = True"
| "isFinNum v = False"

fun isStr :: "jsval \<Rightarrow> bool" where
  "isStr (Str s) = True"
| "isStr v = False"

definition isRecord :: "jsval \<Rightarrow> bool" where
  "isRecord p =
     (\<not> nullish p \<and> isFinNum (readOf p ''rank'') \<and> isStr (readOf p ''name'')
      \<and> isStr (readOf p ''tier'') \<and> isFinNum (readOf p ''points''))"

text \<open>A record that the normalizer leaves as it is: rank and points are numbers other
  than \<^verbatim>\<open>NaN\<close>, the name is a string that is not empty, the tier is a string without
  white space around it, and when the tier is empty there is no truthy \<^verbatim>\<open>Tier\<close> or
  \<^verbatim>\<open>TIER\<close> to take its place.  The keys of the object are distinct.\<close>

fun nonEmptyStr :: "jsval \<Rightarrow> bool" where
  "nonEmptyStr (Str s) = (s \<noteq> [])"
| "nonEmptyStr v = False"

fun trimmedStr :: "jsval \<Rightarrow> bool" where
  "trimmedStr (Str s) = (trim s = s)"
| "trimmedStr v = False"

definition stableRecord :: "jsval \<Rightarrow> bool" where
  "stableRecord p =
     (case p of
        Obj kvs \<Rightarrow>
          distinct (map fst kvs)
          \<and> isFinNum (getProp kvs ''rank'') \<and> nonEmptyStr (getProp kvs ''name'')
          \<and> trimmedStr (getProp kvs ''tier'') \<and> isFinNum (getProp kvs ''points'')
          \<and> (getProp kvs ''tier'' = Str [] \<longrightarrow>
                \<not> truthy (getProp kvs ''Tier'') \<and> \<not> truthy (getProp kvs ''TIER''))
      | _ \<Rightarrow> False)"

text \<open>The four field values of a record, for comparing lists of records.\<close>

definition fieldsOf :: "jsval \<Rightarrow> jsval \<times> jsval \<times> jsval \<times> jsval" where
  "fieldsOf p = (readOf p ''rank'', readOf p ''name'', readOf p ''tier'', readOf p ''points'')"

text \<open>The properties that \<open>jsonValue\<close> keeps of an object.\<close>

definition jsonProps :: "obj \<Rightarrow> obj" where
  "jsonProps kvs =
     map (\<lambda>kv. (fst kv, jsonValue (snd kv)))
       (filter (\<lambda>kv. snd kv \<noteq> Undefined \<and> snd kv \<noteq> Builtin) kvs)"

text \<open>The two alerts of the import.\<close>

definition importOk :: string where
  "importOk = ''Import successful. The list was replaced with the imported data.''"

definition importFailed :: string where
  "importFailed = ''Failed to import file. See console for details.''"

text \<open>The quoted form of a CSV field: double quotes around it, each double quote inside
  doubled; a line of fields, separated by commas; and a field as a CSV writer puts it,
  quoted when it contains a comma or a double quote.\<close>

definition escapeQuotes :: "string \<Rightarrow> string" where
  "escapeQuotes f = concat (map (\<lambda>c. if c = CHR 0x22 then [CHR 0x22, CHR 0x22] else [c]) f)"

definition quoteField :: "string \<Rightarrow> string" where
  "quoteField f = CHR 0x22 # escapeQuotes f @ [CHR 0x22]"

fun joinFields :: "string list \<Rightarrow> string" where
  "joinFields [] = []"
| "joinFields [f] = f"
| "joinFields (f # g # fs) = f @ CHR '','' # joinFields (g # fs)"

definition csvCell :: "string \<Rightarrow> string" where
  "csvCell f = (if CHR '','' \<in> set f \<or> CHR 0x22 \<in> set f then quoteField f else f)"

text \<open>The points that the mapping gives a tier when its values are numbers: the value
  stored under the tier, 0 when nothing is stored, and \<^verbatim>\<open>NaN\<close> when nothing is stored and
  the tier is a name of \<^verbatim>\<open>Object.prototype\<close>.\<close>

definition mappedPoints :: "obj \<Rightarrow> string \<Rightarrow> jsval" where
  "mappedPoints tm t =
     (case map_of tm t of
        Some v \<Rightarrow> v
      | None \<Rightarrow> if t \<in> set objectPrototypeNames then Num NaN else Num (Fin 0))"











section \<open>Example inputs\<close>

text \<open>Inputs of the normalizer: negative points, and an empty array as name.\<close>

definition negativePoints :: jsval where
  "negativePoints = Obj [(''points'', Num (Fin (- 5)))]"

definition arrayName :: jsval where
  "arrayName = Obj [(''name'', Arr [])]"

text \<open>An empty storage, one whose mapping key holds \<^verbatim>\<open>{"LT5":10}\<close>, and one whose
  mapping key holds \<^verbatim>\<open>{"LT5":15,"XT9":1}\<close>.\<close>

definition emptyStore :: storage where
  "emptyStore = Map.empty"

definition partialMappingStore :: storage where
  "partialMappingStore = Map.empty(MAPPING_KEY \<mapsto> Json (Obj [(''LT5'', Num (Fin 10))]))"

definition customMappingStore :: storage where
  "customMappingStore =
     Map.empty(MAPPING_KEY \<mapsto> Json (Obj [(''LT5'', Num (Fin 15)), (''XT9'', Num (Fin 1))]))"

text \<open>A CSV file of a header and one row, and the name in that row.\<close>

definition csvExample :: string where
  \<open>csvExample = ''rank,name,tier,points'' @ [CHR 0x0A] @ ''1,"Smith, ""The Rock""",HT1,100''\<close>

definition theRock :: string where
  \<open>theRock = ''Smith, "The Rock"''\<close>

text \<open>Editors: after a first load; with a record without a name; with a record of zero
  points; with two equal records; with a record whose rank is the string \<^verbatim>\<open>abc\<close>.\<close>

definition exampleEditor :: editor where
  "exampleEditor =
     \<lparr>players = map Some initialData, tierMapping = mappingDefault, editingId = None,
      store = emptyStore, alerts = []\<rparr>"

definition namelessEditor :: editor where
  "namelessEditor =
     \<lparr>players = [Some (mkPlayer (Num (Fin 1)) (Str []) (Str ''HT1'') (Num (Fin 100)))],
      tierMapping = mappingDefault, editingId = None, store = emptyStore, alerts = []\<rparr>"

definition mixedEditor :: editor where
  "mixedEditor =
     \<lparr>players = [Some (mkPlayer (Num (Fin 1)) (Str ''Ann'') (Str ''HT1'') (Num (Fin 5))),
                 Some (mkPlayer (Num (Fin 2)) (Str ''Bob'') (Str ''LT2'') (Num (Fin 0)))],
      tierMapping = mappingDefault, editingId = None, store = emptyStore, alerts = []\<rparr>"









text \<open>The reading of a file that holds one record, written with a string as rank and
  without points, and the record that the normalizer makes of it.\<close>

definition annFile :: rawtext where
  "annFile = Json (Arr [Obj [(''rank'', Str ''2''), (''name'', Str ''Ann''), (''tier'', Str ''HT1'')]])"

definition ann2 :: jsval where
  "ann2 = mkPlayer (Num (Fin 2)) (Str ''Ann'') (Str ''HT1'') (Num (Fin 100))"
















section \<open>Basic facts\<close>

lemma orJS_Num_0: "orJS (Num r) (Num (Fin 0)) = Num (Fin (numOr0 r))"
  by (cases r) (auto simp: orJS_def numOr0_def)

lemma orJS_Str_empty: "orJS (Str s) (Str []) = Str s"
  by (auto simp: orJS_def)

lemma dropWhile_rev_fixed:
  "xs = [] \<or> \<not> P (hd xs) \<Longrightarrow>
   dropWhile P (rev (dropWhile P (rev xs))) = rev (dropWhile P (rev xs))"
  by (cases xs) (auto simp: dropWhile_append)

lemma hd_dropWhile_or_empty: "dropWhile P s = [] \<or> \<not> P (hd (dropWhile P s))"
  using hd_dropWhile by blast

lemma trim_idem: "trim (trim s) = trim s"
  unfolding trim_def
  by (simp add: dropWhile_rev_fixed [OF hd_dropWhile_or_empty])

lemma bindE_Inr_iff: "bindE m f = Inr y \<longleftrightarrow> (\<exists>x. m = Inr x \<and> f x = Inr y)"
  by (cases m) (auto simp: bindE_def)

lemma bindE_Inr: "bindE (Inr x) f = f x"
  by (simp add: bindE_def)

lemma bindE_Inl: "bindE (Inl e) f = Inl e"
  by (simp add: bindE_def)

section \<open>The normalizer\<close>

lemma normalizePlayer_Inr:
  "normalizePlayer m item = Inr y \<longleftrightarrow>
     (\<not> nullish item \<and>
      (\<exists>tierVal pp r nm p.
         tierValOf item = Inr tierVal \<and> pointsProvidedOf item = Inr pp \<and>
         toNum (readOf item ''rank'') = Inr r \<and> nameOf item = Inr nm \<and>
         toNum (pointsOf m tierVal pp) = Inr p \<and>
         y = mkPlayer (Num (Fin (numOr0 r))) (Str nm) (Str tierVal) (Num (Fin (numOr0 p)))))"
  unfolding normalizePlayer_def
  by (auto simp: bindE_Inr_iff orJS_Num_0 orJS_Str_empty)

lemma tierValOf_trim: "tierValOf item = Inr t \<Longrightarrow> trim t = t"
  by (auto simp: tierValOf_def bindE_Inr_iff trim_idem)

lemma readOf_mkPlayer:
  "readOf (mkPlayer r n t p) ''rank'' = r"
  "readOf (mkPlayer r n t p) ''name'' = n"
  "readOf (mkPlayer r n t p) ''tier'' = t"
  "readOf (mkPlayer r n t p) ''points'' = p"
  "readOf (mkPlayer r n t p) ''Tier'' = Undefined"
  "readOf (mkPlayer r n t p) ''TIER'' = Undefined"
  "readOf (mkPlayer r n t p) ''player'' = Undefined"
  "readOf (mkPlayer r n t p) ''username'' = Undefined"
  by (simp_all add: readOf_def mkPlayer_def getProp_def objectPrototypeNames_def)

lemma normalizePlayer_record:
  assumes "trim t = t" and "nm \<noteq> []"
  shows "normalizePlayer m (mkPlayer (Num (Fin a)) (Str nm) (Str t) (Num (Fin b)))
           = Inr (mkPlayer (Num (Fin a)) (Str nm) (Str t) (Num (Fin b)))"
proof -
  let ?y = "mkPlayer (Num (Fin a)) (Str nm) (Str t) (Num (Fin b))"
  have n: "\<not> nullish ?y" by (simp add: nullish_def mkPlayer_def)
  have t: "tierValOf ?y = Inr t"
    using assms(1) by (auto simp add: tierValOf_def readOf_mkPlayer orJS_def bindE_Inr)
  have pp: "pointsProvidedOf ?y = Inr (Some (Fin b))"
    by (simp add: pointsProvidedOf_def readOf_mkPlayer bindE_Inr)
  have nmv: "nameOf ?y = Inr nm"
    using assms(2) by (simp add: nameOf_def readOf_mkPlayer orJS_def)
  show ?thesis
    unfolding normalizePlayer_Inr
    using n t pp nmv by (simp add: readOf_mkPlayer pointsOf_def numOr0_def)
qed

text \<open>
  Claim C3, as amended.  Normalizing a normalized record gives the same record, provided
  the name of the normalized record is not the empty string.  (The name is empty only when
  the name chosen from the input is a truthy value whose string is empty, such as an empty
  array.)
\<close>

theorem normalizePlayer_idempotent:
  assumes "normalizePlayer m x = Inr y" and "field y ''name'' \<noteq> Inr (Str [])"
  shows "normalizePlayer m y = Inr y"
proof -
  from assms(1) obtain tierVal nm a b where
    y: "y = mkPlayer (Num (Fin a)) (Str nm) (Str tierVal) (Num (Fin b))"
    and t: "tierValOf x = Inr tierVal"
    unfolding normalizePlayer_Inr by blast
  from assms(2) have "nm \<noteq> []"
    by (simp add: y mkPlayer_def getProp_def)
  with tierValOf_trim [OF t] show ?thesis
    unfolding y by (rule normalizePlayer_record)
qed

lemma trim_examples:
  "trim [] = []" "trim ''HT1'' = ''HT1''" "trim ''Unknown'' = ''Unknown''"
  "trim '' HT1 '' = ''HT1''" "trim ''abc'' = ''abc''"
  by (simp_all add: trim_def isWhiteSpace_def)

theorem normalizePlayer_idempotent_witness:
  "normalizePlayer mappingDefault (Obj [(''name'', Str ''Ann''), (''tier'', Str '' HT1 '')])
     = Inr (mkPlayer (Num (Fin 0)) (Str ''Ann'') (Str ''HT1'') (Num (Fin 100)))
   \<and> field (mkPlayer (Num (Fin 0)) (Str ''Ann'') (Str ''HT1'') (Num (Fin 100))) ''name''
       \<noteq> Inr (Str [])
   \<and> normalizePlayer mappingDefault
       (mkPlayer (Num (Fin 0)) (Str ''Ann'') (Str ''HT1'') (Num (Fin 100)))
     = Inr (mkPlayer (Num (Fin 0)) (Str ''Ann'') (Str ''HT1'') (Num (Fin 100)))"
proof -
  have a: "normalizePlayer mappingDefault (Obj [(''name'', Str ''Ann''), (''tier'', Str '' HT1 '')])
     = Inr (mkPlayer (Num (Fin 0)) (Str ''Ann'') (Str ''HT1'') (Num (Fin 100)))"
    by code_simp
  have b: "field (mkPlayer (Num (Fin 0)) (Str ''Ann'') (Str ''HT1'') (Num (Fin 100))) ''name''
             \<noteq> Inr (Str [])"
    by (simp add: mkPlayer_def getProp_def)
  from normalizePlayer_idempotent [OF a b] a b show ?thesis by simp
qed

text \<open>The claim as stated fails on an input whose name is the empty array: its string is
  empty, and the second pass replaces the empty name by the default.\<close>

theorem normalizePlayer_idempotent_counterexample:
  "normalizePlayer mappingDefault arrayName
     = Inr (mkPlayer (Num (Fin 0)) (Str []) (Str []) (Num (Fin 0)))
   \<and> normalizePlayer mappingDefault (mkPlayer (Num (Fin 0)) (Str []) (Str []) (Num (Fin 0)))
     = Inr (mkPlayer (Num (Fin 0)) (Str ''Unknown'') (Str []) (Num (Fin 0)))
   \<and> mkPlayer (Num (Fin 0)) (Str ''Unknown'') (Str []) (Num (Fin 0))
     \<noteq> mkPlayer (Num (Fin 0)) (Str []) (Str []) (Num (Fin 0))"
  by (simp add: arrayName_def mkPlayer_def) code_simp

lemma field_mkPlayer:
  "field (mkPlayer r n t p) ''rank'' = Inr r"
  "field (mkPlayer r n t p) ''name'' = Inr n"
  "field (mkPlayer r n t p) ''tier'' = Inr t"
  "field (mkPlayer r n t p) ''points'' = Inr p"
  by (simp_all add: mkPlayer_def getProp_def)

lemma strToNum_abc: "strToNum ''abc'' = NaN"
  by (simp add: strToNum_def trim_examples digitsValue_def isDigit_def)

lemma pointsProvidedOf_fallback:
  "readOf item ''points'' = Undefined \<or> readOf item ''points'' = Str ''abc'' \<Longrightarrow>
   pointsProvidedOf item = Inr None \<or> pointsProvidedOf item = Inr (Some NaN)"
  by (auto simp: pointsProvidedOf_def bindE_Inr strToNum_abc)

text \<open>
  Claim C4, as amended.  The points of a normalized record are a number that is not
  \<^verbatim>\<open>NaN\<close>; it may be negative.  When the input has no points or the points \<^verbatim>\<open>"abc"\<close>, the
  points are the number of the mapping's value for the normalized tier, \<^verbatim>\<open>NaN\<close> replaced by
  0, and they are 0 when the mapping has nothing under that tier.
\<close>

theorem normalizePlayer_points:
  assumes "normalizePlayer m item = Inr y"
  shows "(\<exists>n. field y ''points'' = Inr (Num (Fin n)))
       \<and> (readOf item ''points'' = Undefined \<or> readOf item ''points'' = Str ''abc'' \<longrightarrow>
            (\<exists>t v. field y ''tier'' = Inr (Str t)
                \<and> toNum (coalesce (getProp m t) (Num (Fin 0))) = Inr v
                \<and> field y ''points'' = Inr (Num (Fin (numOr0 v)))
                \<and> (getProp m t = Undefined \<longrightarrow> field y ''points'' = Inr (Num (Fin 0)))))"
proof -
  from assms obtain tierVal pp p nm r where
    y: "y = mkPlayer (Num (Fin (numOr0 r))) (Str nm) (Str tierVal) (Num (Fin (numOr0 p)))"
    and pp: "pointsProvidedOf item = Inr pp"
    and p: "toNum (pointsOf m tierVal pp) = Inr p"
    unfolding normalizePlayer_Inr by blast
  have first: "\<exists>n. field y ''points'' = Inr (Num (Fin n))"
    by (simp add: y field_mkPlayer)
  have second: "\<exists>t v. field y ''tier'' = Inr (Str t)
                \<and> toNum (coalesce (getProp m t) (Num (Fin 0))) = Inr v
                \<and> field y ''points'' = Inr (Num (Fin (numOr0 v)))
                \<and> (getProp m t = Undefined \<longrightarrow> field y ''points'' = Inr (Num (Fin 0)))"
    if "readOf item ''points'' = Undefined \<or> readOf item ''points'' = Str ''abc''"
  proof -
    from pointsProvidedOf_fallback [OF that] pp have "pp = None \<or> pp = Some NaN" by auto
    then have "pointsOf m tierVal pp = coalesce (getProp m tierVal) (Num (Fin 0))"
      by (auto simp: pointsOf_def)
    with p have v: "toNum (coalesce (getProp m tierVal) (Num (Fin 0))) = Inr p" by simp
    have z: "getProp m tierVal = Undefined \<longrightarrow> numOr0 p = 0"
      using v by (auto simp: coalesce_def nullish_def numOr0_def)
    show ?thesis
      using v z by (auto simp: y field_mkPlayer)
  qed
  from first second show ?thesis by blast
qed

theorem normalizePlayer_points_witness:
  "normalizePlayer mappingDefault (Obj [(''points'', Str ''abc''), (''tier'', Str ''HT1'')])
     = Inr (mkPlayer (Num (Fin 0)) (Str ''Unknown'') (Str ''HT1'') (Num (Fin 100)))
   \<and> readOf (Obj [(''points'', Str ''abc''), (''tier'', Str ''HT1'')]) ''points'' = Str ''abc''
   \<and> normalizePlayer mappingDefault (Obj [(''tier'', Str ''S'')])
     = Inr (mkPlayer (Num (Fin 0)) (Str ''Unknown'') (Str ''S'') (Num (Fin 0)))
   \<and> readOf (Obj [(''tier'', Str ''S'')]) ''points'' = Undefined
   \<and> getProp mappingDefault ''S'' = Undefined
   \<and> (\<exists>n. field (mkPlayer (Num (Fin 0)) (Str ''Unknown'') (Str ''HT1'') (Num (Fin 100)))
              ''points'' = Inr (Num (Fin n)))
   \<and> (\<exists>t v. field (mkPlayer (Num (Fin 0)) (Str ''Unknown'') (Str ''S'') (Num (Fin 0))) ''tier''
              = Inr (Str t)
          \<and> toNum (coalesce (getProp mappingDefault t) (Num (Fin 0))) = Inr v
          \<and> field (mkPlayer (Num (Fin 0)) (Str ''Unknown'') (Str ''S'') (Num (Fin 0))) ''points''
              = Inr (Num (Fin (numOr0 v))))"
proof -
  have a: "normalizePlayer mappingDefault (Obj [(''points'', Str ''abc''), (''tier'', Str ''HT1'')])
     = Inr (mkPlayer (Num (Fin 0)) (Str ''Unknown'') (Str ''HT1'') (Num (Fin 100)))"
    by code_simp
  have b: "normalizePlayer mappingDefault (Obj [(''tier'', Str ''S'')])
     = Inr (mkPlayer (Num (Fin 0)) (Str ''Unknown'') (Str ''S'') (Num (Fin 0)))"
    by code_simp
  have c: "readOf (Obj [(''points'', Str ''abc''), (''tier'', Str ''HT1'')]) ''points'' = Str ''abc''"
    by (simp add: readOf_def getProp_def)
  have d: "readOf (Obj [(''tier'', Str ''S'')]) ''points'' = Undefined"
    by (simp add: readOf_def getProp_def objectPrototypeNames_def)
  have e: "getProp mappingDefault ''S'' = Undefined"
    by (simp add: getProp_def mappingDefault_def objectPrototypeNames_def)
  from normalizePlayer_points [OF a] normalizePlayer_points [OF b] a b c d e
  show ?thesis by blast
qed

text \<open>The claim as stated fails on negative points: they are kept.\<close>

theorem normalizePlayer_points_counterexample:
  "normalizePlayer mappingDefault negativePoints
     = Inr (mkPlayer (Num (Fin 0)) (Str ''Unknown'') (Str []) (Num (Fin (- 5))))
   \<and> field (mkPlayer (Num (Fin 0)) (Str ''Unknown'') (Str []) (Num (Fin (- 5)))) ''points''
     = Inr (Num (Fin (- 5)))
   \<and> (- 5 :: int) < 0"
  by (simp add: negativePoints_def field_mkPlayer) code_simp

section \<open>Loading the tier mapping\<close>

lemma map_of_setProp: "map_of (setProp kvs k v) = (map_of kvs)(k \<mapsto> v)"
  by (induction kvs k v rule: setProp.induct) auto

lemma map_of_foldl_setProp:
  "distinct (map fst kvs) \<Longrightarrow>
   map_of (foldl (\<lambda>acc kv. setProp acc (fst kv) (snd kv)) a kvs) = map_of a ++ map_of kvs"
proof (induction kvs arbitrary: a)
  case Nil
  then show ?case by simp
next
  case (Cons kv kvs)
  then have "map_of kvs (fst kv) = None"
    by (simp add: map_of_eq_None_iff)
  with Cons show ?case
    by (auto simp: map_of_setProp map_add_def fun_eq_iff split: option.splits)
qed

lemma map_of_spread_Obj:
  "distinct (map fst kvs) \<Longrightarrow> map_of (spread a (Obj kvs)) = map_of a ++ map_of kvs"
  by (simp add: spread_def map_of_foldl_setProp)

lemma own_foldl_setProp:
  "own a k \<Longrightarrow> own (foldl (\<lambda>acc kv. setProp acc (fst kv) (snd kv)) a kvs) k"
  by (induction kvs arbitrary: a) (auto simp: own_def map_of_setProp)

lemma getProp_spread_Obj:
  assumes "distinct (map fst kvs)"
  shows "getProp (spread a (Obj kvs)) k = (case map_of kvs k of Some v \<Rightarrow> v | None \<Rightarrow> getProp a k)"
  by (simp add: getProp_def map_of_spread_Obj [OF assms] map_add_def split: option.splits)

lemma own_spread: "own a k \<Longrightarrow> own (spread a v) k"
  by (simp add: spread_def own_foldl_setProp)

lemma own_mappingDefault: "\<forall>t \<in> set TIER_ORDER. own mappingDefault t"
  by (simp add: TIER_ORDER_def mappingDefault_def own_def)

text \<open>
  Claim C1, as amended.  When the mapping key holds an object, the editor's \<^verbatim>\<open>loadMapping\<close>
  returns the default mapping overlaid with the stored entries: the ten canonical labels are
  present, a stored entry wins, and a label that is not stored has its default.  The
  viewer's \<^verbatim>\<open>loadMapping\<close> returns the stored object as it is, without the defaults.
\<close>

theorem loadMapping_overlay:
  assumes "st MAPPING_KEY = Some (Json (Obj kvs))" and "distinct (map fst kvs)"
  shows "fst (loadMapping st) = spread mappingDefault (Obj kvs)
       \<and> (\<forall>t \<in> set TIER_ORDER. own (fst (loadMapping st)) t)
       \<and> (\<forall>k. getProp (fst (loadMapping st)) k
               = (case map_of kvs k of Some v \<Rightarrow> v | None \<Rightarrow> getProp mappingDefault k))
       \<and> fst (view_loadMapping st) = Obj kvs"
proof -
  have l: "loadMapping st = (spread mappingDefault (Obj kvs), st)"
    using assms(1) by (simp add: loadMapping_def loadMapping_try_def JSON_parse_def bindE_def)
  have v: "view_loadMapping st = (Obj kvs, st)"
    using assms(1) by (simp add: view_loadMapping_def view_loadMapping_try_def JSON_parse_def)
  show ?thesis
    using own_mappingDefault
    by (simp add: l v getProp_spread_Obj [OF assms(2)] own_spread)
qed


theorem loadMapping_overlay_witness:
  "partialMappingStore MAPPING_KEY = Some (Json (Obj [(''LT5'', Num (Fin 10))]))
   \<and> distinct (map fst [(''LT5'', Num (Fin 10))])
   \<and> fst (loadMapping partialMappingStore) = mappingDefault
   \<and> getProp (fst (loadMapping partialMappingStore)) ''LT5'' = Num (Fin 10)
   \<and> getProp (fst (loadMapping partialMappingStore)) ''HT1'' = Num (Fin 100)
   \<and> fst (view_loadMapping partialMappingStore) = Obj [(''LT5'', Num (Fin 10))]
   \<and> customMappingStore MAPPING_KEY
       = Some (Json (Obj [(''LT5'', Num (Fin 15)), (''XT9'', Num (Fin 1))]))
   \<and> distinct (map fst [(''LT5'', Num (Fin 15)), (''XT9'', Num (Fin 1))])
   \<and> getProp (fst (loadMapping customMappingStore)) ''LT5'' = Num (Fin 15)
   \<and> getProp (fst (loadMapping customMappingStore)) ''XT9'' = Num (Fin 1)
   \<and> getProp (fst (loadMapping customMappingStore)) ''HT5'' = Num (Fin 20)
   \<and> own (fst (loadMapping customMappingStore)) ''HT1''"
proof -
  have a: "partialMappingStore MAPPING_KEY = Some (Json (Obj [(''LT5'', Num (Fin 10))]))"
    by (simp add: partialMappingStore_def)
  have b: "distinct (map fst [(''LT5'', Num (Fin 10))])"
    by simp
  have c: "spread mappingDefault (Obj [(''LT5'', Num (Fin 10))]) = mappingDefault"
    by (simp add: spread_def mappingDefault_def)
  have d: "getProp mappingDefault ''LT5'' = Num (Fin 10)"
    "getProp mappingDefault ''HT1'' = Num (Fin 100)" "getProp mappingDefault ''HT5'' = Num (Fin 20)"
    by (simp_all add: getProp_def mappingDefault_def)
  have a': "customMappingStore MAPPING_KEY
       = Some (Json (Obj [(''LT5'', Num (Fin 15)), (''XT9'', Num (Fin 1))]))"
    by (simp add: customMappingStore_def)
  have b': "distinct (map fst [(''LT5'', Num (Fin 15)), (''XT9'', Num (Fin 1))])"
    by simp
  have t: "''HT1'' \<in> set TIER_ORDER"
    by (simp add: TIER_ORDER_def)
  from loadMapping_overlay [of partialMappingStore "[(''LT5'', Num (Fin 10))]", OF a b] c d
  have 1: "fst (loadMapping partialMappingStore) = mappingDefault"
    "getProp (fst (loadMapping partialMappingStore)) ''LT5'' = Num (Fin 10)"
    "getProp (fst (loadMapping partialMappingStore)) ''HT1'' = Num (Fin 100)"
    "fst (view_loadMapping partialMappingStore) = Obj [(''LT5'', Num (Fin 10))]"
    by simp_all
  from loadMapping_overlay
    [of customMappingStore "[(''LT5'', Num (Fin 15)), (''XT9'', Num (Fin 1))]", OF a' b'] d t
  have 2: "getProp (fst (loadMapping customMappingStore)) ''LT5'' = Num (Fin 15)"
    "getProp (fst (loadMapping customMappingStore)) ''XT9'' = Num (Fin 1)"
    "getProp (fst (loadMapping customMappingStore)) ''HT5'' = Num (Fin 20)"
    "own (fst (loadMapping customMappingStore)) ''HT1''"
    by (simp_all add: spread_def mappingDefault_def getProp_def own_def)
  from a b a' b' 1 2 show ?thesis by (intro conjI)
qed

text \<open>The claim as stated fails for the viewer: from a stored \<^verbatim>\<open>{"LT5":10}\<close> it returns
  that object alone, in which \<^verbatim>\<open>HT5\<close> is not present.\<close>

theorem loadMapping_overlay_counterexample:
  "fst (view_loadMapping partialMappingStore) = Obj [(''LT5'', Num (Fin 10))]
   \<and> field (fst (view_loadMapping partialMappingStore)) ''HT5'' = Inr Undefined
   \<and> \<not> own [(''LT5'', Num (Fin 10))] ''HT5''"
  by (simp add: view_loadMapping_def view_loadMapping_try_def partialMappingStore_def
      JSON_parse_def own_def getProp_def objectPrototypeNames_def)

section \<open>Loading from absent or malformed storage\<close>

lemma loadPlayers_seed:
  assumes "st STORAGE_KEY = None \<or> st STORAGE_KEY = Some Empty \<or> st STORAGE_KEY = Some Garbage
           \<or> (\<exists>v. st STORAGE_KEY = Some (Json v) \<and> (\<forall>vs. v \<noteq> Arr vs))"
  shows "loadPlayers st
           = (map Some initialData, st(STORAGE_KEY \<mapsto> stringifyArray (map Some initialData)))"
  using assms
  by (auto simp: loadPlayers_def loadPlayers_try_def JSON_parse_def split: jsval.splits)

lemma view_loadPlayers_empty:
  assumes "st STORAGE_KEY = None \<or> st STORAGE_KEY = Some Empty \<or> st STORAGE_KEY = Some Garbage
           \<or> (\<exists>v. st STORAGE_KEY = Some (Json v) \<and> (\<forall>vs. v \<noteq> Arr vs))"
  shows "view_loadPlayers st = ([], st)"
  using assms
  by (auto simp: view_loadPlayers_def view_loadPlayers_try_def JSON_parse_def split: jsval.splits)

lemma loadMapping_seed:
  assumes "st MAPPING_KEY = None \<or> st MAPPING_KEY = Some Empty \<or> st MAPPING_KEY = Some Garbage"
  shows "loadMapping st = (mappingDefault, st(MAPPING_KEY \<mapsto> stringifyObject mappingDefault))"
  using assms
  by (auto simp: loadMapping_def loadMapping_try_def JSON_parse_def)

lemma view_loadMapping_empty:
  assumes "st MAPPING_KEY = None \<or> st MAPPING_KEY = Some Empty \<or> st MAPPING_KEY = Some Garbage"
  shows "view_loadMapping st = (Obj [], st)"
  using assms
  by (auto simp: view_loadMapping_def view_loadMapping_try_def JSON_parse_def)

text \<open>
  Claim C2, as amended.  In the editor, \<^verbatim>\<open>loadPlayers\<close> on a players key that is absent,
  empty, unparsable or not a list returns the example dataset and leaves it under the key;
  \<^verbatim>\<open>loadMapping\<close> on a mapping key that is absent, empty or unparsable returns the default
  mapping and leaves it under the key.  In the viewer the two loaders return the empty list
  and the empty object in these cases and leave the storage as it is.  All four are total:
  none raises.
\<close>

theorem loaders_default:
  "(st STORAGE_KEY = None \<or> st STORAGE_KEY = Some Empty \<or> st STORAGE_KEY = Some Garbage
      \<or> (\<exists>v. st STORAGE_KEY = Some (Json v) \<and> (\<forall>vs. v \<noteq> Arr vs))
    \<longrightarrow> loadPlayers st
          = (map Some initialData, st(STORAGE_KEY \<mapsto> stringifyArray (map Some initialData)))
        \<and> view_loadPlayers st = ([], st))
   \<and> (st MAPPING_KEY = None \<or> st MAPPING_KEY = Some Empty \<or> st MAPPING_KEY = Some Garbage
    \<longrightarrow> loadMapping st = (mappingDefault, st(MAPPING_KEY \<mapsto> stringifyObject mappingDefault))
        \<and> view_loadMapping st = (Obj [], st))"
  using loadPlayers_seed view_loadPlayers_empty loadMapping_seed view_loadMapping_empty
  by blast

theorem loaders_default_witness:
  "emptyStore STORAGE_KEY = None \<and> emptyStore MAPPING_KEY = None
   \<and> loadPlayers emptyStore
       = (map Some initialData, emptyStore(STORAGE_KEY \<mapsto> stringifyArray (map Some initialData)))
   \<and> view_loadPlayers emptyStore = ([], emptyStore)
   \<and> loadMapping emptyStore
       = (mappingDefault, emptyStore(MAPPING_KEY \<mapsto> stringifyObject mappingDefault))
   \<and> view_loadMapping emptyStore = (Obj [], emptyStore)"
proof -
  have a: "emptyStore STORAGE_KEY = None" "emptyStore MAPPING_KEY = None"
    by (simp_all add: emptyStore_def)
  from loaders_default [of emptyStore] a show ?thesis by simp
qed

text \<open>The claim as stated fails for the viewer: on an empty storage its \<^verbatim>\<open>loadPlayers\<close>
  returns the empty list, not the example dataset, and the key stays absent.\<close>

theorem loaders_default_counterexample:
  "fst (view_loadPlayers emptyStore) = []
   \<and> map Some initialData \<noteq> fst (view_loadPlayers emptyStore)
   \<and> snd (view_loadPlayers emptyStore) STORAGE_KEY = None"
  by (simp add: view_loadPlayers_def view_loadPlayers_try_def emptyStore_def initialData_def)

section \<open>CSV import\<close>

lemma splitLoop_quoted_body:
  assumes "rest = [] \<or> hd rest = CHR '',''"
  shows "splitLoop (escapeQuotes f @ CHR 0x22 # rest) cur True res = splitLoop rest (cur @ f) False res"
proof (induction f arbitrary: cur)
  case Nil
  from assms show ?case
    by (cases rest) (auto simp: escapeQuotes_def)
next
  case (Cons c f)
  show ?case
  proof (cases "c = CHR 0x22")
    case True
    have "splitLoop (escapeQuotes (c # f) @ CHR 0x22 # rest) cur True res
            = splitLoop (escapeQuotes f @ CHR 0x22 # rest) (cur @ [CHR 0x22]) True res"
      using True by (simp add: escapeQuotes_def)
    with Cons.IH [of "cur @ [CHR 0x22]"] True show ?thesis by simp
  next
    case False
    have "splitLoop (escapeQuotes (c # f) @ CHR 0x22 # rest) cur True res
            = splitLoop (escapeQuotes f @ CHR 0x22 # rest) (cur @ [c]) True res"
      using False by (simp add: escapeQuotes_def)
    with Cons.IH [of "cur @ [c]"] show ?thesis by simp
  qed
qed

lemma splitLoop_quoteField:
  assumes "rest = [] \<or> hd rest = CHR '',''"
  shows "splitLoop (quoteField f @ rest) [] False res = splitLoop rest f False res"
proof -
  have "splitLoop (quoteField f @ rest) [] False res
          = splitLoop (escapeQuotes f @ CHR 0x22 # rest) [] True res"
    by (cases "escapeQuotes f @ CHR 0x22 # rest") (auto simp: quoteField_def)
  with splitLoop_quoted_body [OF assms, of f "[]" res] show ?thesis by simp
qed

lemma splitLoop_quoted_line:
  "splitLoop (joinFields (map quoteField (f # fs))) [] False res = res @ f # fs"
proof (induction fs arbitrary: f res)
  case Nil
  from splitLoop_quoteField [of "[]" f res] show ?case by simp
next
  case (Cons g gs)
  have "splitLoop (joinFields (map quoteField (f # g # gs))) [] False res
          = splitLoop (CHR '','' # joinFields (map quoteField (g # gs))) f False res"
    using splitLoop_quoteField [of "CHR '','' # joinFields (map quoteField (g # gs))" f res]
    by simp
  also have "\<dots> = splitLoop (joinFields (map quoteField (g # gs))) [] False (res @ [f])"
    by simp
  also have "\<dots> = (res @ [f]) @ g # gs"
    by (rule Cons.IH)
  finally show ?case by simp
qed

lemma splitLoop_plain:
  assumes "CHR '','' \<notin> set f" and "CHR 0x22 \<notin> set f"
  shows "splitLoop (f @ rest) cur False res = splitLoop rest (cur @ f) False res"
  using assms by (induction f arbitrary: cur) auto

lemma splitLoop_cell:
  assumes "rest = [] \<or> hd rest = CHR '',''"
  shows "splitLoop (csvCell f @ rest) [] False res = splitLoop rest f False res"
proof (cases "CHR '','' \<in> set f \<or> CHR 0x22 \<in> set f")
  case True
  with splitLoop_quoteField [OF assms] show ?thesis by (simp add: csvCell_def)
next
  case False
  with splitLoop_plain [of f rest "[]" res] show ?thesis by (simp add: csvCell_def)
qed

lemma splitLoop_cells_line:
  "splitLoop (joinFields (map csvCell (f # fs))) [] False res = res @ f # fs"
proof (induction fs arbitrary: f res)
  case Nil
  from splitLoop_cell [of "[]" f res] show ?case by simp
next
  case (Cons g gs)
  have "splitLoop (joinFields (map csvCell (f # g # gs))) [] False res
          = splitLoop (CHR '','' # joinFields (map csvCell (g # gs))) f False res"
    using splitLoop_cell [of "CHR '','' # joinFields (map csvCell (g # gs))" f res]
    by simp
  also have "\<dots> = splitLoop (joinFields (map csvCell (g # gs))) [] False (res @ [f])"
    by simp
  also have "\<dots> = (res @ [f]) @ g # gs"
    by (rule Cons.IH)
  finally show ?case by simp
qed

lemma parseCSV_example:
  "parseCSV csvExample
     = [[(''rank'', Str ''1''), (''name'', Str theRock), (''tier'', Str ''HT1''),
         (''points'', Str ''100'')]]"
  unfolding csvExample_def theRock_def by code_simp

lemma normalize_example:
  "normalizePlayer m (csvRecord [(''rank'', Str ''1''), (''name'', Str theRock),
       (''tier'', Str ''HT1''), (''points'', Str ''100'')])
   = Inr (mkPlayer (Num (Fin 1)) (Str theRock) (Str ''HT1'') (Num (Fin 100)))"
  unfolding theRock_def by code_simp

lemma csv_file_name: "endsWith (toLowerCase ''players.csv'') ''.json'' = False"
  by code_simp

text \<open>
  Claim C7.  A line of quoted fields splits into exactly those fields, whatever commas and
  double quotes they contain: a comma inside quotes does not end a field and a doubled
  quote gives one quote.  The same holds for a line in which only the fields with a comma
  or a double quote are quoted.  Importing the example file (a header and one row) gives
  one record, named \<^verbatim>\<open>Smith, "The Rock"\<close>.
\<close>

theorem csv_quoted_fields:
  "splitCSVLine (joinFields (map quoteField (f # fs))) = f # fs
   \<and> splitCSVLine (joinFields (map csvCell (f # fs))) = f # fs
   \<and> players (importDataFromFile ''players.csv'' csvExample json ed)
       = [Some (mkPlayer (Num (Fin 1)) (Str theRock) (Str ''HT1'') (Num (Fin 100)))]"
proof -
  have a: "splitCSVLine (joinFields (map quoteField (f # fs))) = f # fs"
    unfolding splitCSVLine_def using splitLoop_quoted_line [of f fs "[]"] by simp
  have b: "players (importDataFromFile ''players.csv'' csvExample json ed)
       = [Some (mkPlayer (Num (Fin 1)) (Str theRock) (Str ''HT1'') (Num (Fin 100)))]"
    by (simp add: importDataFromFile_def import_try_def csv_file_name parseCSV_example
        normalize_example bindE_Inr alert_def savePlayers_def)
  have c: "splitCSVLine (joinFields (map csvCell (f # fs))) = f # fs"
    unfolding splitCSVLine_def using splitLoop_cells_line [of f fs "[]"] by simp
  from a b c show ?thesis by simp
qed

section \<open>JSON import\<close>

lemma mapE_Inr_iff: "mapE f xs = Inr ys \<longleftrightarrow> list_all2 (\<lambda>x y. f x = Inr y) xs ys"
proof (induction xs arbitrary: ys)
  case Nil
  then show ?case by auto
next
  case (Cons x xs)
  then show ?case
    by (cases ys) (auto simp: bindE_Inr_iff)
qed

lemma mapE_total_iff: "(\<exists>ys. mapE f xs = Inr ys) \<longleftrightarrow> (\<forall>x \<in> set xs. \<exists>y. f x = Inr y)"
proof (induction xs)
  case Nil
  then show ?case by simp
next
  case (Cons x xs)
  then show ?case by (auto simp: bindE_Inr_iff)
qed

lemma mapE_Inl_or_Inr: "(\<exists>e. m = Inl e) \<or> (\<exists>y. m = Inr y)"
  by (cases m) auto

lemma import_json_ok:
  assumes "endsWith (toLowerCase fileName) ''.json''"
    and "json = Json (Arr vs)" and "mapE (normalizePlayer (tierMapping ed)) vs = Inr ys"
  shows "importDataFromFile fileName txt json ed
           = alert importOk (savePlayers (ed\<lparr>players := map Some ys\<rparr>))"
  using assms
  by (simp add: importDataFromFile_def import_try_def JSON_parse_def bindE_Inr importOk_def)

lemma import_json_failed:
  assumes "endsWith (toLowerCase fileName) ''.json''"
    and "\<not> (\<exists>vs ys. json = Json (Arr vs) \<and> mapE (normalizePlayer (tierMapping ed)) vs = Inr ys)"
  shows "importDataFromFile fileName txt json ed = alert importFailed ed"
proof (cases json)
  case Empty
  with assms(1) show ?thesis
    by (simp add: importDataFromFile_def import_try_def JSON_parse_def bindE_Inl importFailed_def)
next
  case Garbage
  with assms(1) show ?thesis
    by (simp add: importDataFromFile_def import_try_def JSON_parse_def bindE_Inl importFailed_def)
next
  case (Json v)
  show ?thesis
  proof (cases "\<exists>vs. v = Arr vs")
    case True
    then obtain vs where v: "v = Arr vs" by blast
    with assms(2) Json obtain e where "mapE (normalizePlayer (tierMapping ed)) vs = Inl e"
      using mapE_Inl_or_Inr [of "mapE (normalizePlayer (tierMapping ed)) vs"] by auto
    with assms(1) Json v show ?thesis
      by (simp add: importDataFromFile_def import_try_def JSON_parse_def bindE_Inl bindE_Inr
          importFailed_def)
  next
    case False
    with assms(1) Json show ?thesis
      by (cases v)
        (simp_all add: importDataFromFile_def import_try_def JSON_parse_def bindE_Inl bindE_Inr
          importFailed_def)
  qed
qed


lemma normalized_json:
  assumes "normalizePlayer m v = Inr y"
  shows "slotJson (Some y) = y"
proof -
  from assms obtain a nm t b where
    "y = mkPlayer (Num (Fin a)) (Str nm) (Str t) (Num (Fin b))"
    unfolding normalizePlayer_Inr by blast
  then show ?thesis
    by (simp add: slotJson_def mkPlayer_def)
qed

lemma stringify_normalized:
  assumes "list_all2 (\<lambda>v y. normalizePlayer m v = Inr y) vs ys"
  shows "stringifyArray (map Some ys) = Json (Arr ys)"
proof -
  from assms have "map slotJson (map Some ys) = ys"
    by (induction rule: list_all2_induct) (simp_all add: normalized_json del: map_map)
  then show ?thesis by (simp add: stringifyArray_def del: map_map)
qed

text \<open>
  Claim C6.  For a file whose name ends in \<^verbatim>\<open>.json\<close>: when the text parses to a list whose
  elements all normalize, the list in memory becomes the normalized elements, the players
  key of the store holds the text of that very list, and the success alert is shown; in
  every other case (text that does not parse, a value that is not a list, an element on
  which the normalizer raises) the list and the store are what they were and the failure
  alert is shown.  Nothing else changes in either case.  So the success alert is shown in
  the first case only, and the store differs from what it was in the first case only.
\<close>

theorem json_import_atomic:
  assumes "endsWith (toLowerCase fileName) ''.json''"
  shows "((\<exists>vs. json = Json (Arr vs) \<and> (\<forall>v \<in> set vs. \<exists>y. normalizePlayer (tierMapping ed) v = Inr y))
          \<longrightarrow> (\<exists>vs ys. json = Json (Arr vs)
                \<and> list_all2 (\<lambda>v y. normalizePlayer (tierMapping ed) v = Inr y) vs ys
                \<and> importDataFromFile fileName txt json ed
                    = ed\<lparr>players := map Some ys,
                         store := (store ed)(STORAGE_KEY \<mapsto> Json (Arr ys)),
                         alerts := alerts ed @ [importOk]\<rparr>))
       \<and> (\<not> (\<exists>vs. json = Json (Arr vs) \<and> (\<forall>v \<in> set vs. \<exists>y. normalizePlayer (tierMapping ed) v = Inr y))
          \<longrightarrow> importDataFromFile fileName txt json ed = ed\<lparr>alerts := alerts ed @ [importFailed]\<rparr>)
       \<and> (last (alerts (importDataFromFile fileName txt json ed)) = importOk
          \<longleftrightarrow> (\<exists>vs. json = Json (Arr vs) \<and> (\<forall>v \<in> set vs. \<exists>y. normalizePlayer (tierMapping ed) v = Inr y)))
       \<and> (store (importDataFromFile fileName txt json ed) \<noteq> store ed
          \<longrightarrow> (\<exists>vs. json = Json (Arr vs) \<and> (\<forall>v \<in> set vs. \<exists>y. normalizePlayer (tierMapping ed) v = Inr y)))"
proof -
  let ?ok = "\<exists>vs. json = Json (Arr vs) \<and> (\<forall>v \<in> set vs. \<exists>y. normalizePlayer (tierMapping ed) v = Inr y)"
  let ?r = "importDataFromFile fileName txt json ed"
  have ok: "\<exists>vs ys. json = Json (Arr vs)
                \<and> list_all2 (\<lambda>v y. normalizePlayer (tierMapping ed) v = Inr y) vs ys
                \<and> ?r = ed\<lparr>players := map Some ys,
                         store := (store ed)(STORAGE_KEY \<mapsto> Json (Arr ys)),
                         alerts := alerts ed @ [importOk]\<rparr>" if "?ok"
  proof -
    from that obtain vs where j: "json = Json (Arr vs)"
      and "\<forall>v \<in> set vs. \<exists>y. normalizePlayer (tierMapping ed) v = Inr y" by blast
    then obtain ys where m: "mapE (normalizePlayer (tierMapping ed)) vs = Inr ys"
      using mapE_total_iff [of "normalizePlayer (tierMapping ed)" vs] by blast
    then have l: "list_all2 (\<lambda>v y. normalizePlayer (tierMapping ed) v = Inr y) vs ys"
      by (simp add: mapE_Inr_iff)
    have "?r = alert importOk (savePlayers (ed\<lparr>players := map Some ys\<rparr>))"
      by (rule import_json_ok [OF assms j m])
    also have "\<dots> = ed\<lparr>players := map Some ys,
                         store := (store ed)(STORAGE_KEY \<mapsto> Json (Arr ys)),
                         alerts := alerts ed @ [importOk]\<rparr>"
      by (simp add: alert_def savePlayers_def stringify_normalized [OF l])
    finally show ?thesis using j l by blast
  qed
  have failed: "?r = ed\<lparr>alerts := alerts ed @ [importFailed]\<rparr>" if "\<not> ?ok"
  proof -
    have "\<not> (\<exists>vs ys. json = Json (Arr vs) \<and> mapE (normalizePlayer (tierMapping ed)) vs = Inr ys)"
      using that mapE_total_iff [of "normalizePlayer (tierMapping ed)"] by blast
    from import_json_failed [OF assms this] show ?thesis
      by (simp add: alert_def)
  qed
  have msgs: "importOk \<noteq> importFailed"
    by (simp add: importOk_def importFailed_def)
  have iff: "last (alerts ?r) = importOk \<longleftrightarrow> ?ok"
  proof (cases "?ok")
    case True
    with ok obtain ys where "?r = ed\<lparr>players := map Some ys,
                         store := (store ed)(STORAGE_KEY \<mapsto> Json (Arr ys)),
                         alerts := alerts ed @ [importOk]\<rparr>"
      by blast
    with True show ?thesis by simp
  next
    case False
    with failed have "?r = ed\<lparr>alerts := alerts ed @ [importFailed]\<rparr>" by blast
    with False msgs show ?thesis by simp
  qed
  have written: "?ok" if "store ?r \<noteq> store ed"
  proof (rule ccontr)
    assume "\<not> ?ok"
    with failed have "?r = ed\<lparr>alerts := alerts ed @ [importFailed]\<rparr>" by blast
    with that show False by simp
  qed
  from ok failed iff written show ?thesis by blast
qed


lemma json_name: "endsWith (toLowerCase ''players.json'') ''.json''"
  by code_simp

theorem json_import_atomic_witness:
  "endsWith (toLowerCase ''players.json'') ''.json''
   \<and> importDataFromFile ''players.json'' [] Garbage exampleEditor
       = exampleEditor\<lparr>alerts := [importFailed]\<rparr>
   \<and> importDataFromFile ''players.json'' [] (Json (Obj [])) exampleEditor
       = exampleEditor\<lparr>alerts := [importFailed]\<rparr>
   \<and> importDataFromFile ''players.json'' [] (Json (Arr [Str ''Ann'', Null])) exampleEditor
       = exampleEditor\<lparr>alerts := [importFailed]\<rparr>
   \<and> importDataFromFile ''players.json'' [] annFile exampleEditor
       = exampleEditor\<lparr>players := [Some ann2],
                        store := emptyStore(STORAGE_KEY \<mapsto> Json (Arr [ann2])),
                        alerts := [importOk]\<rparr>
   \<and> store (importDataFromFile ''players.json'' [] annFile exampleEditor) \<noteq> store exampleEditor"
proof -
  let ?raw = "Obj [(''rank'', Str ''2''), (''name'', Str ''Ann''), (''tier'', Str ''HT1'')]"
  have n: "normalizePlayer (tierMapping exampleEditor) Null = Inl TypeError"
    by (simp add: normalizePlayer_def nullish_def)
  have a: "normalizePlayer (tierMapping exampleEditor) ?raw = Inr ann2"
    unfolding exampleEditor_def ann2_def by simp code_simp
  have e: "alerts exampleEditor = []" "store exampleEditor = emptyStore"
    by (simp_all add: exampleEditor_def)
  from json_import_atomic [OF json_name, of Garbage exampleEditor "[]"]
  have 1: "importDataFromFile ''players.json'' [] Garbage exampleEditor
             = exampleEditor\<lparr>alerts := [importFailed]\<rparr>" by (simp add: e)
  from json_import_atomic [OF json_name, of "Json (Obj [])" exampleEditor "[]"]
  have 2: "importDataFromFile ''players.json'' [] (Json (Obj [])) exampleEditor
             = exampleEditor\<lparr>alerts := [importFailed]\<rparr>" by (simp add: e)
  from json_import_atomic [OF json_name, of "Json (Arr [Str ''Ann'', Null])" exampleEditor "[]"] n
  have 3: "importDataFromFile ''players.json'' [] (Json (Arr [Str ''Ann'', Null])) exampleEditor
             = exampleEditor\<lparr>alerts := [importFailed]\<rparr>" by (simp add: e)
  from json_import_atomic [OF json_name, of annFile exampleEditor "[]"] a
  have 4: "importDataFromFile ''players.json'' [] annFile exampleEditor
       = exampleEditor\<lparr>players := [Some ann2],
                        store := emptyStore(STORAGE_KEY \<mapsto> Json (Arr [ann2])),
                        alerts := [importOk]\<rparr>"
    by (auto simp: annFile_def e list_all2_Cons1)
  have 5: "store (importDataFromFile ''players.json'' [] annFile exampleEditor) \<noteq> store exampleEditor"
    unfolding 4 by (simp add: e emptyStore_def fun_eq_iff)
  from json_name 1 2 3 4 5 show ?thesis by (intro conjI)
qed

section \<open>Export and import\<close>

lemma normalizePlayer_fields:
  assumes "\<not> nullish item"
    and "readOf item ''rank'' = Num (Fin a)" and "readOf item ''name'' = Str nm" and "nm \<noteq> []"
    and "readOf item ''tier'' = Str t" and "trim t = t"
    and "t = [] \<longrightarrow> \<not> truthy (readOf item ''Tier'') \<and> \<not> truthy (readOf item ''TIER'')"
    and "readOf item ''points'' = Num (Fin b)"
  shows "normalizePlayer m item = Inr (mkPlayer (Num (Fin a)) (Str nm) (Str t) (Num (Fin b)))"
proof -
  have "orJS (readOf item ''tier'') (orJS (readOf item ''Tier'')
          (orJS (readOf item ''TIER'') (Str []))) = Str t"
    using assms(5,7) by (cases "t = []") (simp_all add: orJS_def)
  then have t: "tierValOf item = Inr t"
    using assms(6) by (simp add: tierValOf_def bindE_Inr)
  have pp: "pointsProvidedOf item = Inr (Some (Fin b))"
    using assms by (simp add: pointsProvidedOf_def bindE_Inr)
  have nmv: "nameOf item = Inr nm"
    using assms by (simp add: nameOf_def orJS_def)
  show ?thesis
    unfolding normalizePlayer_Inr
    using assms(1,2) t pp nmv by (simp add: pointsOf_def numOr0_def)
qed

lemma map_of_jsonProps_absent:
  "k \<notin> set (map fst kvs) \<Longrightarrow> map_of (jsonProps kvs) k = None"
  by (induction kvs) (auto simp: jsonProps_def)

lemma map_of_jsonProps:
  assumes "distinct (map fst kvs)"
  shows "map_of (jsonProps kvs) k =
           (case map_of kvs k of
              None \<Rightarrow> None
            | Some v \<Rightarrow> if v = Undefined \<or> v = Builtin then None else Some (jsonValue v))"
  using assms
proof (induction kvs)
  case Nil
  then show ?case by (simp add: jsonProps_def)
next
  case (Cons kv kvs)
  obtain k' v' where kv: "kv = (k', v')" by (cases kv)
  from Cons.prems kv have absent: "k' \<notin> set (map fst kvs)" and d: "distinct (map fst kvs)"
    by simp_all
  have step: "jsonProps ((k', v') # kvs)
                = (if v' = Undefined \<or> v' = Builtin then jsonProps kvs
                   else (k', jsonValue v') # jsonProps kvs)"
    by (simp add: jsonProps_def)
  show ?case
  proof (cases "k' = k")
    case True
    with absent have "map_of (jsonProps kvs) k = None"
      using map_of_jsonProps_absent by simp
    with True show ?thesis unfolding kv step by simp
  next
    case False
    with Cons.IH [OF d] show ?thesis unfolding kv step by simp
  qed
qed

lemma truthy_jsonValue: "truthy (jsonValue v) = truthy v"
  by (cases v rule: jsonValue.cases) simp_all

lemma jsonValue_plain: "isFinNum v \<or> isStr v \<Longrightarrow> jsonValue v = v"
  by (cases v rule: isFinNum.cases) auto

lemma getProp_jsonProps_plain:
  assumes "distinct (map fst kvs)" and "getProp kvs k = v" and "isFinNum v \<or> isStr v"
  shows "getProp (jsonProps kvs) k = v"
proof -
  from assms(2,3) have "map_of kvs k = Some v"
    by (cases "map_of kvs k") (auto simp: getProp_def split: if_splits)
  moreover from assms(3) have "v \<noteq> Undefined" "v \<noteq> Builtin" by auto
  ultimately show ?thesis
    using jsonValue_plain [OF assms(3)] by (simp add: getProp_def map_of_jsonProps [OF assms(1)])
qed

lemma getProp_jsonProps_falsy:
  assumes "distinct (map fst kvs)" and "\<not> truthy (getProp kvs k)"
    and "k \<notin> set objectPrototypeNames"
  shows "\<not> truthy (getProp (jsonProps kvs) k)"
proof (cases "map_of kvs k")
  case None
  with assms(3) show ?thesis
    by (simp add: getProp_def map_of_jsonProps [OF assms(1)])
next
  case (Some v)
  with assms(2) have "\<not> truthy v" by (simp add: getProp_def)
  with Some assms(3) show ?thesis
    by (simp add: getProp_def map_of_jsonProps [OF assms(1)] truthy_jsonValue)
qed

lemma isFinNum_cases: "isFinNum v \<Longrightarrow> \<exists>n. v = Num (Fin n)"
  by (cases v rule: isFinNum.cases) auto

lemma nonEmptyStr_cases: "nonEmptyStr v \<Longrightarrow> \<exists>s. v = Str s \<and> s \<noteq> []"
  by (cases v rule: nonEmptyStr.cases) auto

lemma trimmedStr_cases: "trimmedStr v \<Longrightarrow> \<exists>s. v = Str s \<and> trim s = s"
  by (cases v rule: trimmedStr.cases) auto

lemma readOf_Obj: "readOf (Obj kvs) k = getProp kvs k"
  by (simp add: readOf_def)

lemma fieldsOf_mkPlayer: "fieldsOf (mkPlayer r n t p) = (r, n, t, p)"
  by (simp add: fieldsOf_def readOf_mkPlayer)

lemma stableRecord_roundtrip:
  assumes "stableRecord p"
  shows "\<exists>y. normalizePlayer m (slotJson (Some p)) = Inr y \<and> fieldsOf y = fieldsOf p"
proof -
  from assms obtain kvs where p: "p = Obj kvs"
    by (cases p) (auto simp: stableRecord_def)
  from assms p have d: "distinct (map fst kvs)"
    and "isFinNum (getProp kvs ''rank'')" and "nonEmptyStr (getProp kvs ''name'')"
    and "trimmedStr (getProp kvs ''tier'')" and "isFinNum (getProp kvs ''points'')"
    and alt: "getProp kvs ''tier'' = Str [] \<longrightarrow>
                \<not> truthy (getProp kvs ''Tier'') \<and> \<not> truthy (getProp kvs ''TIER'')"
    by (simp_all add: stableRecord_def)
  then obtain a nm t b where
    r: "getProp kvs ''rank'' = Num (Fin a)" and
    n: "getProp kvs ''name'' = Str nm" "nm \<noteq> []" and
    t: "getProp kvs ''tier'' = Str t" "trim t = t" and
    q: "getProp kvs ''points'' = Num (Fin b)"
    using isFinNum_cases nonEmptyStr_cases trimmedStr_cases by metis
  have j: "slotJson (Some p) = Obj (jsonProps kvs)"
    by (simp add: slotJson_def p jsonProps_def)
  have 1: "readOf (Obj (jsonProps kvs)) ''rank'' = Num (Fin a)"
    and 2: "readOf (Obj (jsonProps kvs)) ''name'' = Str nm"
    and 3: "readOf (Obj (jsonProps kvs)) ''tier'' = Str t"
    and 4: "readOf (Obj (jsonProps kvs)) ''points'' = Num (Fin b)"
    using r n t q by (simp_all add: readOf_Obj getProp_jsonProps_plain [OF d])
  have 5: "t = [] \<longrightarrow> \<not> truthy (readOf (Obj (jsonProps kvs)) ''Tier'')
                  \<and> \<not> truthy (readOf (Obj (jsonProps kvs)) ''TIER'')"
  proof (intro impI conjI)
    assume "t = []"
    with alt t(1) have f: "\<not> truthy (getProp kvs ''Tier'')" "\<not> truthy (getProp kvs ''TIER'')"
      by simp_all
    show "\<not> truthy (readOf (Obj (jsonProps kvs)) ''Tier'')"
      unfolding readOf_Obj
      by (rule getProp_jsonProps_falsy [OF d f(1)]) (simp add: objectPrototypeNames_def)
    show "\<not> truthy (readOf (Obj (jsonProps kvs)) ''TIER'')"
      unfolding readOf_Obj
      by (rule getProp_jsonProps_falsy [OF d f(2)]) (simp add: objectPrototypeNames_def)
  qed
  have "normalizePlayer m (Obj (jsonProps kvs))
          = Inr (mkPlayer (Num (Fin a)) (Str nm) (Str t) (Num (Fin b)))"
    by (rule normalizePlayer_fields [OF _ 1 2 n(2) 3 t(2) 5 4]) (simp add: nullish_def)
  moreover have "fieldsOf p = (Num (Fin a), Str nm, Str t, Num (Fin b))"
    using r n t q by (simp add: fieldsOf_def p readOf_Obj)
  ultimately show ?thesis
    by (simp add: j fieldsOf_mkPlayer)
qed

lemma roundtrip_list:
  assumes "\<forall>s \<in> set xs. \<exists>p. s = Some p \<and> stableRecord p"
  shows "\<exists>ys. mapE (normalizePlayer m) (map slotJson xs) = Inr ys
            \<and> map (map_option fieldsOf) (map Some ys) = map (map_option fieldsOf) xs"
  using assms
proof (induction xs)
  case Nil
  then show ?case by simp
next
  case (Cons s xs)
  then obtain p where s: "s = Some p" and pr: "stableRecord p" by auto
  from stableRecord_roundtrip [OF pr, of m] obtain y where
    y: "normalizePlayer m (slotJson (Some p)) = Inr y" "fieldsOf y = fieldsOf p" by blast
  from Cons obtain ys where
    ys: "mapE (normalizePlayer m) (map slotJson xs) = Inr ys"
        "map (map_option fieldsOf) (map Some ys) = map (map_option fieldsOf) xs" by auto
  show ?case
    using s y ys by (simp add: bindE_Inr)
qed

text \<open>
  Claim C5, as amended.  For a list of records with numbers other than \<^verbatim>\<open>NaN\<close> as rank
  and points, a name that is not empty, a tier without white space around it and, where the
  tier is empty, no truthy \<^verbatim>\<open>Tier\<close> or \<^verbatim>\<open>TIER\<close> field: exporting the list and importing the
  exported file (into any editor) gives a list of the same length with the same field
  values in the same order.
\<close>

theorem export_import_roundtrip:
  assumes "\<forall>s \<in> set (players ed). \<exists>p. s = Some p \<and> stableRecord p"
  shows "map (map_option fieldsOf)
           (players (importDataFromFile (fst (downloadJSON ed)) txt (snd (downloadJSON ed)) ed2))
         = map (map_option fieldsOf) (players ed)"
proof -
  from roundtrip_list [OF assms, of "tierMapping ed2"] obtain ys where
    ys: "mapE (normalizePlayer (tierMapping ed2)) (map slotJson (players ed)) = Inr ys"
        "map (map_option fieldsOf) (map Some ys) = map (map_option fieldsOf) (players ed)"
    by blast
  have "importDataFromFile (fst (downloadJSON ed)) txt (snd (downloadJSON ed)) ed2
          = alert importOk (savePlayers (ed2\<lparr>players := map Some ys\<rparr>))"
    by (rule import_json_ok [where vs = "map slotJson (players ed)"])
       (simp_all add: downloadJSON_def json_name stringifyArray_def ys)
  then show ?thesis
    using ys(2) by (simp add: alert_def savePlayers_def)
qed

theorem export_import_roundtrip_witness:
  "list_all (\<lambda>s. s \<noteq> None \<and> stableRecord (the s)) (players exampleEditor)
   \<and> map (map_option fieldsOf)
       (players (importDataFromFile (fst (downloadJSON exampleEditor)) []
                   (snd (downloadJSON exampleEditor)) namelessEditor))
     = map (map_option fieldsOf) (players exampleEditor)"
proof -
  have tr: "trim ''HT1'' = ''HT1''" "trim ''LT2'' = ''LT2''" "trim ''LT5'' = ''LT5''"
    by (simp_all add: trim_def isWhiteSpace_def)
  have a: "list_all (\<lambda>s. s \<noteq> None \<and> stableRecord (the s)) (players exampleEditor)"
    by (simp add: exampleEditor_def initialData_def stableRecord_def mkPlayer_def getProp_def
        mappingDefault_def tr)
  then have b: "\<forall>s \<in> set (players exampleEditor). \<exists>p. s = Some p \<and> stableRecord p"
    by (auto simp: list_all_iff)
  from export_import_roundtrip [OF b] a show ?thesis by simp
qed

text \<open>The claim as stated fails on a record whose name is the empty string: the import
  names it \<^verbatim>\<open>Unknown\<close>.\<close>

theorem export_import_roundtrip_counterexample:
  "players namelessEditor = [Some (mkPlayer (Num (Fin 1)) (Str []) (Str ''HT1'') (Num (Fin 100)))]
   \<and> isRecord (mkPlayer (Num (Fin 1)) (Str []) (Str ''HT1'') (Num (Fin 100)))
   \<and> players (importDataFromFile (fst (downloadJSON namelessEditor)) []
                (snd (downloadJSON namelessEditor)) namelessEditor)
     = [Some (mkPlayer (Num (Fin 1)) (Str ''Unknown'') (Str ''HT1'') (Num (Fin 100)))]
   \<and> mkPlayer (Num (Fin 1)) (Str ''Unknown'') (Str ''HT1'') (Num (Fin 100))
     \<noteq> mkPlayer (Num (Fin 1)) (Str []) (Str ''HT1'') (Num (Fin 100))"
proof -
  have n: "normalizePlayer mappingDefault (mkPlayer (Num (Fin 1)) (Str []) (Str ''HT1'') (Num (Fin 100)))
             = Inr (mkPlayer (Num (Fin 1)) (Str ''Unknown'') (Str ''HT1'') (Num (Fin 100)))"
    by code_simp
  have r: "isRecord (mkPlayer (Num (Fin 1)) (Str []) (Str ''HT1'') (Num (Fin 100)))"
    by (simp add: isRecord_def readOf_mkPlayer nullish_def) (simp add: mkPlayer_def)
  have i: "players (importDataFromFile (fst (downloadJSON namelessEditor)) []
                (snd (downloadJSON namelessEditor)) namelessEditor)
     = [Some (mkPlayer (Num (Fin 1)) (Str ''Unknown'') (Str ''HT1'') (Num (Fin 100)))]"
    using n
    by (simp add: importDataFromFile_def import_try_def downloadJSON_def json_name
        stringifyArray_def namelessEditor_def slotJson_def mkPlayer_def JSON_parse_def
        bindE_Inr alert_def savePlayers_def)
  from r i show ?thesis
    by (simp add: namelessEditor_def mkPlayer_def)
qed

section \<open>Applying the mapping\<close>

lemma getProp_setProp: "getProp (setProp kvs k v) k' = (if k' = k then v else getProp kvs k')"
  by (simp add: getProp_def map_of_setProp)

lemma getProp_spread_empty:
  "distinct (map fst kvs) \<Longrightarrow> getProp (spread [] (Obj kvs)) k = getProp kvs k"
  by (simp add: getProp_def map_of_spread_Obj)

lemma mapped_number:
  assumes "\<forall>kv \<in> set tm. \<exists>n. snd kv = Num n"
  shows "\<exists>n. toNum (coalesce (getProp tm t) (Num (Fin 0))) = Inr n \<and> Num n = mappedPoints tm t"
proof (cases "map_of tm t")
  case None
  then show ?thesis
    by (simp add: getProp_def mappedPoints_def coalesce_def nullish_def)
next
  case (Some v)
  then have "(t, v) \<in> set tm" by (rule map_of_SomeD)
  with assms obtain n where "v = Num n" by fastforce
  with Some show ?thesis
    by (simp add: getProp_def mappedPoints_def coalesce_def nullish_def)
qed

lemma withMappedPoints_record:
  assumes "\<forall>kv \<in> set tm. \<exists>n. snd kv = Num n"
    and "distinct (map fst kvs)" and "getProp kvs ''tier'' = Str t"
  shows "\<exists>kvs'. withMappedPoints tm (Obj kvs) = Inr (Obj kvs')
           \<and> getProp kvs' ''points'' = mappedPoints tm t
           \<and> (\<forall>k. k \<noteq> ''points'' \<longrightarrow> getProp kvs' k = getProp kvs k)"
proof -
  from mapped_number [OF assms(1), of t] obtain n where
    n: "toNum (coalesce (getProp tm t) (Num (Fin 0))) = Inr n" "Num n = mappedPoints tm t"
    by blast
  have "withMappedPoints tm (Obj kvs)
          = Inr (Obj (setProp (spread [] (Obj kvs)) ''points'' (Num n)))"
    using assms(3) n(1) by (simp add: withMappedPoints_def bindE_Inr)
  with n(2) assms(2) show ?thesis
    by (simp add: getProp_setProp getProp_spread_empty)
qed

lemma mapSlots_Inr_iff:
  "mapSlots f xs = Inr ys \<longleftrightarrow>
     list_all2 (\<lambda>s s'. case s of None \<Rightarrow> s' = None | Some v \<Rightarrow> \<exists>y. f v = Inr y \<and> s' = Some y) xs ys"
proof (induction xs arbitrary: ys)
  case Nil
  then show ?case by (auto simp: mapSlots_def)
next
  case (Cons x xs)
  then show ?case
    by (cases ys; cases x) (auto simp: mapSlots_def bindE_Inr_iff)
qed

lemma mapSlots_total:
  assumes "\<forall>s \<in> set xs. \<forall>v. s = Some v \<longrightarrow> (\<exists>y. f v = Inr y)"
  shows "\<exists>ys. mapSlots f xs = Inr ys"
  using assms
proof (induction xs)
  case Nil
  then show ?case by (simp add: mapSlots_def)
next
  case (Cons x xs)
  then obtain ys where "mapSlots f xs = Inr ys" by auto
  with Cons.prems show ?case
    by (cases x) (auto simp: mapSlots_def bindE_Inr)
qed

lemma mapSlots_nth:
  assumes "mapSlots f xs = Inr ys"
  shows "length ys = length xs"
    and "i < length xs \<Longrightarrow> xs ! i = Some v \<Longrightarrow> \<exists>y. f v = Inr y \<and> ys ! i = Some y"
  using assms unfolding mapSlots_Inr_iff
  by (auto simp: list_all2_conv_all_nth split: option.splits)


lemma isStr_cases: "isStr v \<Longrightarrow> \<exists>t. v = Str t"
  by (cases v rule: isStr.cases) auto

text \<open>
  Claim C8.  On a list of records (objects with a string tier) and a mapping whose values
  are numbers, both actions return.  Applying the mapping to all players (confirmed) gives
  every record the points that the mapping has for its tier and keeps its other fields.
  Applying it to empty players leaves a record with truthy points (a number other than 0
  among them) as it is, and treats a record whose points are 0, empty or missing like the
  first action.  Both save the list.  Without the confirmation the first action changes
  nothing.
\<close>

theorem applyMapping_points:
  assumes recs: "\<forall>s \<in> set (players ed). \<exists>kvs. s = Some (Obj kvs) \<and> distinct (map fst kvs)
                    \<and> isStr (getProp kvs ''tier'')"
      and nums: "\<forall>kv \<in> set (tierMapping ed). \<exists>n. snd kv = Num n"
  shows "\<exists>ed1 ed2.
      applyMappingToAllPlayers True ed = Inr ed1 \<and> applyMappingToEmptyPlayers ed = Inr ed2
    \<and> applyMappingToAllPlayers False ed = Inr ed
    \<and> length (players ed1) = length (players ed) \<and> length (players ed2) = length (players ed)
    \<and> store ed1 STORAGE_KEY = Some (stringifyArray (players ed1))
    \<and> store ed2 STORAGE_KEY = Some (stringifyArray (players ed2))
    \<and> (\<forall>i kvs t. i < length (players ed) \<longrightarrow> players ed ! i = Some (Obj kvs)
          \<longrightarrow> getProp kvs ''tier'' = Str t \<longrightarrow>
          (\<exists>kvs1. players ed1 ! i = Some (Obj kvs1)
              \<and> getProp kvs1 ''points'' = mappedPoints (tierMapping ed) t
              \<and> (\<forall>k. k \<noteq> ''points'' \<longrightarrow> getProp kvs1 k = getProp kvs k))
          \<and> (truthy (getProp kvs ''points'') \<longrightarrow> players ed2 ! i = Some (Obj kvs))
          \<and> (\<not> truthy (getProp kvs ''points'') \<longrightarrow>
               (\<exists>kvs2. players ed2 ! i = Some (Obj kvs2)
                  \<and> getProp kvs2 ''points'' = mappedPoints (tierMapping ed) t
                  \<and> (\<forall>k. k \<noteq> ''points'' \<longrightarrow> getProp kvs2 k = getProp kvs k))))"
proof -
  let ?tm = "tierMapping ed"
  let ?fA = "withMappedPoints ?tm"
  let ?fE = "\<lambda>p. bindE (field p ''points'') (\<lambda>pts.
                  if \<not> truthy pts then withMappedPoints ?tm p else Inr p)"
  have rec: "\<exists>kvs'. ?fA (Obj kvs) = Inr (Obj kvs')
           \<and> getProp kvs' ''points'' = mappedPoints ?tm t
           \<and> (\<forall>k. k \<noteq> ''points'' \<longrightarrow> getProp kvs' k = getProp kvs k)"
    if "Some (Obj kvs) \<in> set (players ed)" "getProp kvs ''tier'' = Str t" for kvs t
  proof -
    from recs that(1) have "distinct (map fst kvs)" by fastforce
    from withMappedPoints_record [OF nums this that(2)] show ?thesis .
  qed
  have totA: "\<exists>y. ?fA v = Inr y" if "Some v \<in> set (players ed)" for v
  proof -
    from recs that obtain kvs where v: "v = Obj kvs" and "isStr (getProp kvs ''tier'')"
      by fastforce
    then obtain t where "getProp kvs ''tier'' = Str t" using isStr_cases by blast
    with rec [of kvs t] that v show ?thesis by blast
  qed
  have totE: "\<exists>y. ?fE v = Inr y" if "Some v \<in> set (players ed)" for v
  proof -
    from recs that obtain kvs where v: "v = Obj kvs" by fastforce
    from totA [OF that] show ?thesis
      by (auto simp: v bindE_Inr)
  qed
  from mapSlots_total [of "players ed" ?fA] totA
  obtain psA where psA: "mapSlots ?fA (players ed) = Inr psA" by blast
  from mapSlots_total [of "players ed" ?fE] totE
  obtain psE where psE: "mapSlots ?fE (players ed) = Inr psE" by blast
  let ?ed1 = "alert ''Applied mapping to all players.'' (savePlayers (ed\<lparr>players := psA\<rparr>))"
  let ?ed2 = "alert ''Applied mapping to players with empty/zero points.''
                (savePlayers (ed\<lparr>players := psE\<rparr>))"
  have a1: "applyMappingToAllPlayers True ed = Inr ?ed1"
    by (simp add: applyMappingToAllPlayers_def psA bindE_Inr)
  have a2: "applyMappingToEmptyPlayers ed = Inr ?ed2"
    by (simp add: applyMappingToEmptyPlayers_def psE bindE_Inr)
  have a3: "applyMappingToAllPlayers False ed = Inr ed"
    by (simp add: applyMappingToAllPlayers_def)
  have p1: "players ?ed1 = psA" and p2: "players ?ed2 = psE"
    by (simp_all add: alert_def savePlayers_def)
  have s1: "store ?ed1 STORAGE_KEY = Some (stringifyArray (players ?ed1))"
    and s2: "store ?ed2 STORAGE_KEY = Some (stringifyArray (players ?ed2))"
    by (simp_all add: alert_def savePlayers_def)
  have l1: "length psA = length (players ed)" and l2: "length psE = length (players ed)"
    using mapSlots_nth(1) [OF psA] mapSlots_nth(1) [OF psE] by simp_all
  have each: "(\<exists>kvs1. psA ! i = Some (Obj kvs1)
              \<and> getProp kvs1 ''points'' = mappedPoints ?tm t
              \<and> (\<forall>k. k \<noteq> ''points'' \<longrightarrow> getProp kvs1 k = getProp kvs k))
          \<and> (truthy (getProp kvs ''points'') \<longrightarrow> psE ! i = Some (Obj kvs))
          \<and> (\<not> truthy (getProp kvs ''points'') \<longrightarrow>
               (\<exists>kvs2. psE ! i = Some (Obj kvs2)
                  \<and> getProp kvs2 ''points'' = mappedPoints ?tm t
                  \<and> (\<forall>k. k \<noteq> ''points'' \<longrightarrow> getProp kvs2 k = getProp kvs k)))"
    if i: "i < length (players ed)" and at: "players ed ! i = Some (Obj kvs)"
      and t: "getProp kvs ''tier'' = Str t" for i kvs t
  proof -
    from i at have mem: "Some (Obj kvs) \<in> set (players ed)"
      by (metis nth_mem)
    from rec [OF mem t] obtain kvs' where
      k: "?fA (Obj kvs) = Inr (Obj kvs')" "getProp kvs' ''points'' = mappedPoints ?tm t"
         "\<forall>k. k \<noteq> ''points'' \<longrightarrow> getProp kvs' k = getProp kvs k" by blast
    from mapSlots_nth(2) [OF psA i at] k(1) have A: "psA ! i = Some (Obj kvs')" by auto
    from mapSlots_nth(2) [OF psE i at]
    have E: "\<exists>y. ?fE (Obj kvs) = Inr y \<and> psE ! i = Some y" .
    have E1: "psE ! i = Some (Obj kvs)" if "truthy (getProp kvs ''points'')"
      using E that by (auto simp: bindE_Inr)
    have E2: "psE ! i = Some (Obj kvs')" if "\<not> truthy (getProp kvs ''points'')"
      using E that k(1) by (auto simp: bindE_Inr)
    from A E1 E2 k(2,3) show ?thesis by blast
  qed
  show ?thesis
    apply (rule exI [of _ ?ed1], rule exI [of _ ?ed2])
    unfolding p1 p2
    using a1 a2 a3 l1 l2 s1 [unfolded p1] s2 [unfolded p2] each
    by blast
qed


theorem applyMapping_points_witness:
  "list_all (\<lambda>s. \<exists>kvs. s = Some (Obj kvs) \<and> distinct (map fst kvs) \<and> isStr (getProp kvs ''tier''))
     (players mixedEditor)
   \<and> list_all (\<lambda>kv. \<exists>n. snd kv = Num n) (tierMapping mixedEditor)
   \<and> (\<exists>ed1 ed2.
        applyMappingToAllPlayers True mixedEditor = Inr ed1
      \<and> applyMappingToEmptyPlayers mixedEditor = Inr ed2
      \<and> length (players ed1) = 2 \<and> length (players ed2) = 2
      \<and> (\<exists>kvs1. players ed1 ! 0 = Some (Obj kvs1) \<and> getProp kvs1 ''points'' = Num (Fin 100)
             \<and> getProp kvs1 ''name'' = Str ''Ann'')
      \<and> players ed2 ! 0 = Some (mkPlayer (Num (Fin 1)) (Str ''Ann'') (Str ''HT1'') (Num (Fin 5)))
      \<and> (\<exists>kvs2. players ed2 ! 1 = Some (Obj kvs2) \<and> getProp kvs2 ''points'' = Num (Fin 70)
             \<and> getProp kvs2 ''name'' = Str ''Bob''))"
proof -
  let ?a = "[(''rank'', Num (Fin 1)), (''name'', Str ''Ann''), (''tier'', Str ''HT1''),
             (''points'', Num (Fin 5))]"
  let ?b = "[(''rank'', Num (Fin 2)), (''name'', Str ''Bob''), (''tier'', Str ''LT2''),
             (''points'', Num (Fin 0))]"
  have ps: "players mixedEditor = [Some (Obj ?a), Some (Obj ?b)]"
    by (simp add: mixedEditor_def mkPlayer_def)
  have tm: "tierMapping mixedEditor = mappingDefault"
    by (simp add: mixedEditor_def)
  have h1: "list_all (\<lambda>s. \<exists>kvs. s = Some (Obj kvs) \<and> distinct (map fst kvs)
               \<and> isStr (getProp kvs ''tier'')) (players mixedEditor)"
    by (simp add: ps getProp_def)
  have h2: "list_all (\<lambda>kv. \<exists>n. snd kv = Num n) (tierMapping mixedEditor)"
    by (simp add: tm mappingDefault_def)
  have r: "\<forall>s \<in> set (players mixedEditor). \<exists>kvs. s = Some (Obj kvs) \<and> distinct (map fst kvs)
                    \<and> isStr (getProp kvs ''tier'')"
    using h1 by (simp add: list_all_iff)
  have n: "\<forall>kv \<in> set (tierMapping mixedEditor). \<exists>n. snd kv = Num n"
    using h2 by (simp add: list_all_iff)
  have ga: "getProp ?a ''tier'' = Str ''HT1''" "truthy (getProp ?a ''points'')"
           "getProp ?a ''name'' = Str ''Ann''"
    and gb: "getProp ?b ''tier'' = Str ''LT2''" "\<not> truthy (getProp ?b ''points'')"
            "getProp ?b ''name'' = Str ''Bob''"
    by (simp_all add: getProp_def)
  have m: "mappedPoints mappingDefault ''HT1'' = Num (Fin 100)"
          "mappedPoints mappingDefault ''LT2'' = Num (Fin 70)"
    by (simp_all add: mappedPoints_def mappingDefault_def)
  from applyMapping_points [OF r n] obtain ed1 ed2 where
    e: "applyMappingToAllPlayers True mixedEditor = Inr ed1"
       "applyMappingToEmptyPlayers mixedEditor = Inr ed2"
       "length (players ed1) = length (players mixedEditor)"
       "length (players ed2) = length (players mixedEditor)"
    and each: "\<And>i kvs t. i < length (players mixedEditor) \<Longrightarrow> players mixedEditor ! i = Some (Obj kvs)
          \<Longrightarrow> getProp kvs ''tier'' = Str t \<Longrightarrow>
          (\<exists>kvs1. players ed1 ! i = Some (Obj kvs1)
              \<and> getProp kvs1 ''points'' = mappedPoints (tierMapping mixedEditor) t
              \<and> (\<forall>k. k \<noteq> ''points'' \<longrightarrow> getProp kvs1 k = getProp kvs k))
          \<and> (truthy (getProp kvs ''points'') \<longrightarrow> players ed2 ! i = Some (Obj kvs))
          \<and> (\<not> truthy (getProp kvs ''points'') \<longrightarrow>
               (\<exists>kvs2. players ed2 ! i = Some (Obj kvs2)
                  \<and> getProp kvs2 ''points'' = mappedPoints (tierMapping mixedEditor) t
                  \<and> (\<forall>k. k \<noteq> ''points'' \<longrightarrow> getProp kvs2 k = getProp kvs k)))"
    by blast
  from each [of 0 ?a "''HT1''"] ga m
  have A: "\<exists>kvs1. players ed1 ! 0 = Some (Obj kvs1) \<and> getProp kvs1 ''points'' = Num (Fin 100)
             \<and> getProp kvs1 ''name'' = Str ''Ann''"
    and B: "players ed2 ! 0 = Some (Obj ?a)"
    by (auto simp: ps tm)
  from each [of 1 ?b "''LT2''"] gb m
  have C: "\<exists>kvs2. players ed2 ! 1 = Some (Obj kvs2) \<and> getProp kvs2 ''points'' = Num (Fin 70)
             \<and> getProp kvs2 ''name'' = Str ''Bob''"
    by (auto simp: ps tm)
  from e A B C have "\<exists>ed1 ed2.
        applyMappingToAllPlayers True mixedEditor = Inr ed1
      \<and> applyMappingToEmptyPlayers mixedEditor = Inr ed2
      \<and> length (players ed1) = 2 \<and> length (players ed2) = 2
      \<and> (\<exists>kvs1. players ed1 ! 0 = Some (Obj kvs1) \<and> getProp kvs1 ''points'' = Num (Fin 100)
             \<and> getProp kvs1 ''name'' = Str ''Ann'')
      \<and> players ed2 ! 0 = Some (mkPlayer (Num (Fin 1)) (Str ''Ann'') (Str ''HT1'') (Num (Fin 5)))
      \<and> (\<exists>kvs2. players ed2 ! 1 = Some (Obj kvs2) \<and> getProp kvs2 ''points'' = Num (Fin 70)
             \<and> getProp kvs2 ''name'' = Str ''Bob'')"
    unfolding ps mkPlayer_def by (intro exI [of _ ed1] exI [of _ ed2]) simp
  with h1 h2 show ?thesis by blast
qed

section \<open>Numbers and their decimal text\<close>















section \<open>Row actions\<close>




























section \<open>The form handler\<close>
































end
